theory Spec2Isabelle
  imports Main "HOL-Library.Sublist"
begin

section \<open>Strings of the host language\<close>

text \<open>
  A Python \<open>str\<close> is modelled as a \<open>string\<close>; the characters are the code points
  below 256.  \<open>is_space\<close> is the set that \<open>str.strip()\<close>, \<open>str.isspace()\<close> and the
  regular-expression class \<open>\s\<close> use on that range.
\<close>

definition is_space :: "char \<Rightarrow> bool" where
  "is_space c = (let n = of_char c :: nat in
     (9 \<le> n \<and> n \<le> 13) \<or> (28 \<le> n \<and> n \<le> 32) \<or> n = 133 \<or> n = 160)"

text \<open>\<open>s.strip()\<close>: leading and trailing whitespace removed.\<close>

definition strip :: "string \<Rightarrow> string" where
  "strip s = rev (dropWhile is_space (rev (dropWhile is_space s)))"

text \<open>
  \<open>s.split(sep)\<close> for a one-character separator and \<open>re.split("[...]", s)\<close> for a
  character class: the pieces between the separators, empty pieces kept, so a string
  with n separators has n + 1 pieces.  \<open>acc\<close> holds the current piece, reversed.
\<close>

fun split_acc :: "(char \<Rightarrow> bool) \<Rightarrow> string \<Rightarrow> string \<Rightarrow> string list" where
  "split_acc sep acc [] = [rev acc]"
| "split_acc sep acc (c # cs) =
     (if sep c then rev acc # split_acc sep [] cs else split_acc sep (c # acc) cs)"

definition split_on :: "(char \<Rightarrow> bool) \<Rightarrow> string \<Rightarrow> string list" where
  "split_on sep s = split_acc sep [] s"

text \<open>Exceptions of the host language; the argument is the message.\<close>

datatype exn =
    TypeError string
  | ValueError string
  | NameError string
  | SyntaxError string
  | AttributeError string
  | OSError string
  | UnfreezableObjectError string
  | RecursionError string
  | UserError string

section \<open>Regular expressions of the \<open>re\<close> module\<close>

text \<open>
  The patterns of the repository use literals, character classes, \<open>?\<close> on a group,
  \<open>*\<close> on a character class, named groups, \<open>^\<close> and \<open>$\<close>.  \<open>is_word\<close> is \<open>\w\<close>
  and \<open>is_digit\<close> is \<open>\d\<close> for \<open>str\<close> patterns, on the code points below 256;
  \<open>dot\<close> is \<open>.\<close> (no \<open>DOTALL\<close> flag: every character but the newline).
\<close>

definition is_digit :: "char \<Rightarrow> bool" where
  "is_digit c = (let n = of_char c :: nat in 48 \<le> n \<and> n \<le> 57)"

definition is_word :: "char \<Rightarrow> bool" where
  "is_word c = (let n = of_char c :: nat in
     (48 \<le> n \<and> n \<le> 57) \<or> (65 \<le> n \<and> n \<le> 90) \<or> n = 95 \<or> (97 \<le> n \<and> n \<le> 122) \<or>
     n = 170 \<or> n = 178 \<or> n = 179 \<or> n = 181 \<or> n = 185 \<or> n = 186 \<or>
     (188 \<le> n \<and> n \<le> 190) \<or> (192 \<le> n \<and> n \<le> 214) \<or> (216 \<le> n \<and> n \<le> 246) \<or>
     (248 \<le> n \<and> n \<le> 255))"

definition dot :: "char \<Rightarrow> bool" where
  "dot c = (c \<noteq> CHR 0x0A)"

datatype rx =
    Eps
  | Lit string
  | Cls "char \<Rightarrow> bool"
  | Many "char \<Rightarrow> bool"
  | Seq rx rx
  | Opt rx
  | Grp string rx
  | Bol
  | Eol

text \<open>
  A matcher state: the number of characters consumed, the rest of the subject and
  the groups captured so far (the latest first).  \<open>rx_run\<close> lists the states a
  pattern can end in, in the order the backtracking matcher tries them (greedy
  \<open>?\<close> and \<open>*\<close>: the longer alternative first), so the head of the list is the
  match that \<open>re\<close> reports.
\<close>

type_synonym mstate = "nat \<times> string \<times> (string \<times> string) list"

fun lit_run :: "string \<Rightarrow> mstate \<Rightarrow> mstate list" where
  "lit_run [] st = [st]"
| "lit_run (l # ls) (n, [], g) = []"
| "lit_run (l # ls) (n, c # cs, g) = (if c = l then lit_run ls (Suc n, cs, g) else [])"

fun many_run :: "(char \<Rightarrow> bool) \<Rightarrow> mstate \<Rightarrow> mstate list" where
  "many_run p (n, [], g) = [(n, [], g)]"
| "many_run p (n, c # cs, g) =
     (if p c then many_run p (Suc n, cs, g) else []) @ [(n, c # cs, g)]"

fun rx_run :: "rx \<Rightarrow> mstate \<Rightarrow> mstate list" where
  "rx_run Eps st = [st]"
| "rx_run (Lit l) st = lit_run l st"
| "rx_run (Cls p) (n, s, g) =
     (case s of [] \<Rightarrow> [] | c # cs \<Rightarrow> if p c then [(Suc n, cs, g)] else [])"
| "rx_run (Many p) st = many_run p st"
| "rx_run (Seq a b) st = concat (map (rx_run b) (rx_run a st))"
| "rx_run (Opt a) st = rx_run a st @ [st]"
| "rx_run (Grp name a) (n, s, g) =
     map (\<lambda>(n', s', g'). (n', s', (name, take (n' - n) s) # g')) (rx_run a (n, s, g))"
| "rx_run Bol (n, s, g) = (if n = 0 then [(n, s, g)] else [])"
| "rx_run Eol (n, s, g) = (if s = [] \<or> s = [CHR 0x0A] then [(n, s, g)] else [])"

text \<open>
  \<open>pattern.match(s)\<close>: the match is anchored at the start of \<open>s\<close> and need not reach
  its end; \<open>None\<close> when there is none.  \<open>match.group(name)\<close> is \<open>None\<close> for a group
  that took no part in the match.
\<close>

definition re_match :: "rx \<Rightarrow> string \<Rightarrow> (string \<times> string) list option" where
  "re_match r s = (case rx_run r (0, s, []) of [] \<Rightarrow> None | (n, rest, g) # _ \<Rightarrow> Some g)"

definition group :: "(string \<times> string) list \<Rightarrow> string \<Rightarrow> string option" where
  "group m name = map_of m name"

section \<open>egg.reflection: declaration statements\<close>

text \<open>\<open>_identifier = "[\w_][\w\d_]*"\<close> and \<open>_ws = "\s*"\<close>.\<close>

definition identifier_rx :: rx where
  "identifier_rx =
     Seq (Cls (\<lambda>c. is_word c \<or> c = CHR ''_''))
         (Many (\<lambda>c. is_word c \<or> is_digit c \<or> c = CHR ''_''))"

definition ws_rx :: rx where
  "ws_rx = Many is_space"

text \<open>
  \<open>AssignableFactory._make_regex\<close>:
  \<^verbatim>\<open>^{prefix}(?P<name>{matched_identifier}){_ws}(:{_ws}{_identifier}{_ws})?={expression_constraint}$\<close>,
  the annotation group only when \<open>type_annotation_allowed\<close>.
\<close>

definition make_regex :: "rx \<Rightarrow> rx \<Rightarrow> rx \<Rightarrow> bool \<Rightarrow> rx" where
  "make_regex unmatched_identifier_prefix matched_identifier expression_constraint
       type_annotation_allowed =
     Seq Bol (Seq unmatched_identifier_prefix (Seq (Grp ''name'' matched_identifier) (Seq ws_rx
       (Seq (if type_annotation_allowed
             then Opt (Seq (Lit '':'') (Seq ws_rx (Seq identifier_rx ws_rx)))
             else Eps)
         (Seq (Lit ''='') (Seq expression_constraint Eol))))))"

text \<open>
  Keyword arguments are a dictionary from names to the values that occur here:
  strings, \<open>None\<close> (a group that took no part in the match) and booleans.
\<close>

datatype kwarg = KwStr string | KwNone | KwBool bool

text \<open>
  \<open>_parse_declaration_statement\<close>.  The frame's line and name come from the
  traceback of the caller; they are arguments here.  The error handler's result is
  returned when there is no match.
\<close>

definition group_value :: "(string \<times> string) list \<Rightarrow> string \<Rightarrow> kwarg" where
  "group_value m name = (case group m name of None \<Rightarrow> KwNone | Some v \<Rightarrow> KwStr v)"

definition parse_declaration_statement ::
  "string \<Rightarrow> (string \<Rightarrow> exn + (string \<times> kwarg) list) \<Rightarrow> rx \<Rightarrow> string list \<Rightarrow> bool \<Rightarrow>
   string \<Rightarrow> string \<Rightarrow> exn + (string \<times> kwarg) list" where
  "parse_declaration_statement pattern_name error_handler assignation_regex groups top_level
       frame_name declaration_statement =
     (if top_level \<and> frame_name \<noteq> ''<module>''
      then Inl (TypeError (pattern_name @ '' declaration statements must be done at module level''))
      else case re_match assignation_regex declaration_statement of
             Some m \<Rightarrow> Inr (map (\<lambda>grp. (grp, group_value m grp)) groups)
           | None \<Rightarrow> error_handler declaration_statement)"

text \<open>
  An \<open>AssignableFactory\<close> class: its name, the class attributes that
  \<open>_AssignableFactoryMeta.__call__\<close> reads, and its \<open>__build__\<close>, which receives the
  keyword arguments and returns the built object or raises.
\<close>

record 'r factory =
  factory_name :: string
  assignation_regex :: rx
  groups :: "string list"
  top_level :: bool
  error_handler :: "string \<Rightarrow> exn + (string \<times> kwarg) list"
  build :: "(string \<times> kwarg) list \<Rightarrow> exn + 'r"

text \<open>
  \<open>_AssignableFactoryMeta.__call__\<close>: \<open>kwargs | groups_values\<close> is the dictionary
  union in which the parsed groups override the caller's keywords.
\<close>

definition dict_union :: "('k \<times> 'v) list \<Rightarrow> ('k \<times> 'v) list \<Rightarrow> ('k \<times> 'v) list" where
  "dict_union a b = [(k, v) \<leftarrow> a. k \<notin> fst ` set b] @ b"

definition AssignableFactoryMeta_call ::
  "'r factory \<Rightarrow> (string \<times> kwarg) list \<Rightarrow> bool \<Rightarrow> string \<Rightarrow> string \<Rightarrow> exn + 'r" where
  "AssignableFactoryMeta_call cls kwargs do_not_assign frame_name declaration_statement =
     (if do_not_assign then build cls kwargs
      else case parse_declaration_statement (factory_name cls) (error_handler cls)
                  (assignation_regex cls) (groups cls) (top_level cls)
                  frame_name declaration_statement of
             Inl e \<Rightarrow> Inl e
           | Inr groups_values \<Rightarrow> build cls (dict_union kwargs groups_values))"

section \<open>egg.modifiers: the \<open>getter\<close> factory\<close>

text \<open>
  \<open>getter.__build__(cls, *decorators, private=True, name)\<close>, called with keyword
  arguments only: the generated function reads the attribute \<open>name\<close>, or \<open>"_" + name\<close>
  when \<open>private\<close>, and is named \<open>"<" + name.removeprefix("_") + " getter>"\<close>.  The
  annotation \<open>_getter_marker\<close> that is applied to it returns it as it is.  A keyword
  that the signature does not have, a missing \<open>name\<close>, and a \<open>name\<close> that is not a
  string raise a \<open>TypeError\<close>.
\<close>

record getter_impl =
  reads_attribute :: string
  function_name :: string

definition removeprefix :: "string \<Rightarrow> string \<Rightarrow> string" where
  "removeprefix pre s = (if take (length pre) s = pre then drop (length pre) s else s)"

definition truthy :: "kwarg \<Rightarrow> bool" where
  "truthy v = (case v of KwStr s \<Rightarrow> s \<noteq> [] | KwNone \<Rightarrow> False | KwBool b \<Rightarrow> b)"

definition getter_build :: "(string \<times> kwarg) list \<Rightarrow> exn + getter_impl" where
  "getter_build kwargs =
     (if \<not> list_all (\<lambda>(k, v). k = ''private'' \<or> k = ''name'') kwargs
      then Inl (TypeError ''__build__() got an unexpected keyword argument'')
      else case map_of kwargs ''name'' of
             None \<Rightarrow> Inl (TypeError ''__build__() missing 1 required keyword-only argument: name'')
           | Some (KwStr name) \<Rightarrow>
               let private = (case map_of kwargs ''private'' of None \<Rightarrow> True | Some p \<Rightarrow> truthy p)
               in Inr \<lparr> reads_attribute = (if \<not> private then name else ''_'' @ name),
                        function_name = ''<'' @ removeprefix ''_'' name @ '' getter>'' \<rparr>
           | Some _ \<Rightarrow> Inl (TypeError ''name is not a str''))"

definition getter_error_handler :: "string \<Rightarrow> exn + (string \<times> kwarg) list" where
  "getter_error_handler assignment_statement =
     Inl (SyntaxError (''Expected a property name, eventually prefixed by 'get_', got ''
            @ [CHR 0x27] @ assignment_statement @ [CHR 0x27]))"

text \<open>
  The class \<open>getter\<close>: \<open>__assignation_regex__\<close> is
  \<open>_make_regex(unmatched_identifier_prefix="(get_)?")\<close>, the other arguments at their
  defaults (\<open>_identifier\<close>, \<open>".*"\<close>, \<open>True\<close>); \<open>__groups__\<close> and \<open>__top_level__\<close> are
  those of \<open>AssignableFactory\<close>.
\<close>

definition getter_regex :: rx where
  "getter_regex = make_regex (Opt (Lit ''get_'')) identifier_rx (Many dot) True"

definition getter :: "getter_impl factory" where
  "getter = \<lparr> factory_name = ''getter'',
              assignation_regex = getter_regex,
              groups = [''name''],
              top_level = False,
              error_handler = getter_error_handler,
              build = getter_build \<rparr>"

section \<open>hypnosis.interfaces: importing a file as a module\<close>

text \<open>
  \<open>CsvInterface._as_python_object\<close>:
  \<^verbatim>\<open>[[it.strip() for it in re.split("[,;]", line) if it.strip() != ""]
     for line in file_content.split("\n") if line.strip() != ""]\<close>
\<close>

definition CsvInterface_as_python_object :: "string \<Rightarrow> string list list" where
  "CsvInterface_as_python_object file_content =
     [ [strip it. it \<leftarrow> split_on (\<lambda>c. c = CHR '','' \<or> c = CHR '';'') line, strip it \<noteq> []].
       line \<leftarrow> split_on (\<lambda>c. c = CHR 0x0A) file_content, strip line \<noteq> [] ]"

text \<open>
  The loader.  \<open>ExtraInterface.install\<close> hands the finder
  \<open>partial(cls, storage_field or cls.__storage_field_name__)\<close>, and the finder builds
  the loader for the path it found; \<open>__storage_field_name__\<close> is \<open>"content"\<close>.
\<close>

record loader =
  storage_field_name :: string
  filename :: string

definition ExtraInterface_storage_field_name :: string where
  "ExtraInterface_storage_field_name = ''content''"

definition ExtraInterface_install :: "string option \<Rightarrow> string \<Rightarrow> loader" where
  "ExtraInterface_install storage_field fullpath =
     \<lparr> storage_field_name =
         (case storage_field of
            None \<Rightarrow> ExtraInterface_storage_field_name
          | Some f \<Rightarrow> if f = [] then ExtraInterface_storage_field_name else f),
       filename = fullpath \<rparr>"

text \<open>
  \<open>ExtraInterface.exec_module\<close>: the file is opened and read as text, converted by the
  interface's \<open>_as_python_object\<close>, and stored in the module's dictionary.  The file
  system is a map from paths to texts; a path that cannot be opened raises.
\<close>

definition exec_module ::
  "(string \<Rightarrow> 'v) \<Rightarrow> loader \<Rightarrow> (string \<rightharpoonup> string) \<Rightarrow> (string \<rightharpoonup> 'v) \<Rightarrow> exn + (string \<rightharpoonup> 'v)" where
  "exec_module as_python_object self fs module_dict =
     (case fs (filename self) of
        None \<Rightarrow> Inl (OSError (filename self))
      | Some text \<Rightarrow> Inr (module_dict(storage_field_name self \<mapsto> as_python_object text)))"

text \<open>
  The claim's wording, as a second definition: the lines of the text whose stripped
  text is not empty; for each, the line split on \<open>,\<close> or \<open>;\<close>, every cell stripped,
  the empty cells dropped.
\<close>

definition csv_lines_spec :: "string \<Rightarrow> string list" where
  "csv_lines_spec text = filter (\<lambda>line. strip line \<noteq> []) (split_on (\<lambda>c. c = CHR 0x0A) text)"

definition csv_cells_spec :: "string \<Rightarrow> string list" where
  "csv_cells_spec line =
     filter (\<lambda>cell. cell \<noteq> []) (map strip (split_on (\<lambda>c. c \<in> {CHR '','', CHR '';''}) line))"

definition csv_parse_spec :: "string \<Rightarrow> string list list" where
  "csv_parse_spec text = map csv_cells_spec (csv_lines_spec text)"

section \<open>The declaration statements in words\<close>

text \<open>
  The words a pattern without groups and anchors can consume; \<open>plain\<close> says that a
  pattern is one.
\<close>

fun plain :: "rx \<Rightarrow> bool" where
  "plain (Seq a b) = (plain a \<and> plain b)"
| "plain (Opt a) = plain a"
| "plain (Grp name a) = False"
| "plain Bol = False"
| "plain Eol = False"
| "plain r = True"

fun rx_words :: "rx \<Rightarrow> string \<Rightarrow> bool" where
  "rx_words Eps w = (w = [])"
| "rx_words (Lit l) w = (w = l)"
| "rx_words (Cls p) w = (\<exists>c. w = [c] \<and> p c)"
| "rx_words (Many p) w = list_all p w"
| "rx_words (Seq a b) w = (\<exists>u v. w = u @ v \<and> rx_words a u \<and> rx_words b v)"
| "rx_words (Opt a) w = (rx_words a w \<or> w = [])"
| "rx_words (Grp name a) w = rx_words a w"
| "rx_words Bol w = (w = [])"
| "rx_words Eol w = (w = [])"

text \<open>
  The statement of the claim about \<open>getter()\<close>, as a second definition: an
  identifier, optionally prefixed by \<open>get_\<close>, optionally type-annotated, followed by
  \<open>=\<close> and an expression.  An identifier is what \<open>_identifier\<close> accepts; an
  annotation is a colon and an identifier with optional blanks; an expression is
  the rest of the line.
\<close>

definition ident_char :: "char \<Rightarrow> bool" where
  "ident_char c = (is_word c \<or> is_digit c \<or> c = CHR ''_'')"

definition is_identifier :: "string \<Rightarrow> bool" where
  "is_identifier w =
     (case w of [] \<Rightarrow> False | c # cs \<Rightarrow> (is_word c \<or> c = CHR ''_'') \<and> list_all ident_char cs)"

definition is_annotation :: "string \<Rightarrow> bool" where
  "is_annotation a = (\<exists>ws2 ty ws3. a = '':'' @ ws2 @ ty @ ws3 \<and>
      list_all is_space ws2 \<and> is_identifier ty \<and> list_all is_space ws3)"

definition is_expression :: "string \<Rightarrow> bool" where
  "is_expression e = (list_all dot e \<or> (\<exists>e'. e = e' @ [CHR 0x0A] \<and> list_all dot e'))"

definition getter_statement :: "string \<Rightarrow> string \<Rightarrow> bool" where
  "getter_statement stmt name = (\<exists>pre ws ann expr.
      stmt = pre @ name @ ws @ ann @ ''='' @ expr \<and> (pre = [] \<or> pre = ''get_'') \<and>
      is_identifier name \<and> list_all is_space ws \<and> (ann = [] \<or> is_annotation ann) \<and>
      is_expression expr)"

definition annotation_rx :: rx where
  "annotation_rx = Opt (Seq (Lit '':'') (Seq ws_rx (Seq identifier_rx ws_rx)))"


section \<open>egg.io: fields tagged with their runtime type\<close>

text \<open>
  The values that reach the encoder, as far as they are modelled: \<open>None\<close>, booleans,
  integers, strings, lists and dictionaries with string keys.  (Floats and instances
  of other classes, among them the classes deriving \<open>JsonIOSupporter\<close>, are not.)
\<close>

datatype pyval =
    PNone
  | PBool bool
  | PInt int
  | PStr string
  | PList "pyval list"
  | PDict "(string \<times> pyval) list"

text \<open>\<open>type(value).__name__\<close>.\<close>

fun type_name :: "pyval \<Rightarrow> string" where
  "type_name PNone = ''NoneType''"
| "type_name (PBool b) = ''bool''"
| "type_name (PInt i) = ''int''"
| "type_name (PStr s) = ''str''"
| "type_name (PList xs) = ''list''"
| "type_name (PDict kvs) = ''dict''"

text \<open>
  \<open>str(i)\<close> for an integer: the decimal digits, the most significant first, after a
  minus sign for a negative number.  The interpreter refuses to convert more than
  \<open>sys.get_int_max_str_digits()\<close> digits (4300 unless it was changed; 0 switches the
  limit off), in both directions, with a \<open>ValueError\<close>.
\<close>

definition digit_char :: "nat \<Rightarrow> char" where
  "digit_char d = char_of (48 + d)"

fun digits :: "nat \<Rightarrow> string" where
  "digits n = (if n < 10 then [digit_char n] else digits (n div 10) @ [digit_char (n mod 10)])"

declare digits.simps [simp del]

definition str_int :: "nat \<Rightarrow> int \<Rightarrow> exn + string" where
  "str_int max_str_digits i =
     (let ds = digits (nat \<bar>i\<bar>) in
      if 0 < max_str_digits \<and> max_str_digits < length ds
      then Inl (ValueError ''Exceeds the limit for integer string conversion'')
      else Inr ((if i < 0 then ''-'' else []) @ ds))"

text \<open>
  The text that the f-string \<open>f"{value}"\<close> inserts, which is \<open>str(value)\<close>.  For a list
  and a dictionary it is their \<open>repr\<close>, an argument here: the encoder does not
  format them.
\<close>

fun py_str :: "nat \<Rightarrow> (pyval \<Rightarrow> string) \<Rightarrow> pyval \<Rightarrow> exn + string" where
  "py_str max_str_digits container_repr PNone = Inr ''None''"
| "py_str max_str_digits container_repr (PBool b) = Inr (if b then ''True'' else ''False'')"
| "py_str max_str_digits container_repr (PInt i) = str_int max_str_digits i"
| "py_str max_str_digits container_repr (PStr s) = Inr s"
| "py_str max_str_digits container_repr (PList xs) = Inr (container_repr (PList xs))"
| "py_str max_str_digits container_repr (PDict kvs) = Inr (container_repr (PDict kvs))"

text \<open>
  \<open>__Dumper.create_field\<close>, on the dictionary \<open>_fields\<close>.  No modelled value is a
  \<open>JsonIOSupporter\<close>, so the comprehensions of the list and dictionary branches keep
  every item.
\<close>

definition create_field ::
  "nat \<Rightarrow> (pyval \<Rightarrow> string) \<Rightarrow> (string \<rightharpoonup> pyval) \<Rightarrow> string \<Rightarrow> pyval \<Rightarrow> exn + (string \<rightharpoonup> pyval)" where
  "create_field max_str_digits container_repr self_fields field value =
     (let field_type = type_name value in
      if field_type = ''str'' then Inr (self_fields(field \<mapsto> value))
      else if field_type = ''list''
        then Inr (self_fields(field \<mapsto> PList (case value of PList xs \<Rightarrow> [it. it \<leftarrow> xs] | _ \<Rightarrow> [])))
      else if field_type = ''dict''
        then Inr (self_fields(field \<mapsto> PDict (case value of PDict kvs \<Rightarrow> [(k, it). (k, it) \<leftarrow> kvs] | _ \<Rightarrow> [])))
      else case py_str max_str_digits container_repr value of
             Inl e \<Rightarrow> Inl e
           | Inr text \<Rightarrow> Inr (self_fields(field \<mapsto> PStr (''<'' @ field_type @ ''>'' @ text))))"

text \<open>
  \<open>int(s)\<close> for a string: blanks stripped, an optional sign, then decimal digits, in
  which single underscores may separate digits; anything else is a \<open>ValueError\<close>.
  The blanks that \<open>int\<close> strips are the ASCII ones (9 to 13 and the space) and the
  two blanks above 127; unlike \<open>str.strip()\<close> it keeps the separators 28 to 31,
  which then make the literal invalid.  \<open>digits_tail\<close> reads what follows a digit.
\<close>

definition is_int_space :: "char \<Rightarrow> bool" where
  "is_int_space c = (let n = of_char c :: nat in
     (9 \<le> n \<and> n \<le> 13) \<or> n = 32 \<or> n = 133 \<or> n = 160)"

definition int_strip :: "string \<Rightarrow> string" where
  "int_strip s = rev (dropWhile is_int_space (rev (dropWhile is_int_space s)))"

definition digit_val :: "char \<Rightarrow> nat" where
  "digit_val c = of_char c - 48"

fun digits_tail :: "nat \<Rightarrow> string \<Rightarrow> nat option" where
  "digits_tail acc [] = Some acc"
| "digits_tail acc [c] = (if is_digit c then Some (10 * acc + digit_val c) else None)"
| "digits_tail acc (c # d # cs) =
     (if is_digit c then digits_tail (10 * acc + digit_val c) (d # cs)
      else if c = CHR ''_'' \<and> is_digit d then digits_tail (10 * acc + digit_val d) cs
      else None)"

definition parse_decimal :: "string \<Rightarrow> nat option" where
  "parse_decimal s =
     (case s of [] \<Rightarrow> None | c # cs \<Rightarrow> if is_digit c then digits_tail (digit_val c) cs else None)"

definition int_of_str :: "nat \<Rightarrow> string \<Rightarrow> exn + pyval" where
  "int_of_str max_str_digits s =
     (let t = int_strip s;
          negative = (case t of c # _ \<Rightarrow> c = CHR ''-'' | [] \<Rightarrow> False);
          body = (case t of c # cs \<Rightarrow> if c = CHR ''-'' \<or> c = CHR ''+'' then cs else t | [] \<Rightarrow> t)
      in case parse_decimal body of
           None \<Rightarrow> Inl (ValueError ''invalid literal for int() with base 10'')
         | Some n \<Rightarrow>
             if 0 < max_str_digits \<and> max_str_digits < length (filter is_digit body)
             then Inl (ValueError ''Exceeds the limit for integer string conversion'')
             else Inr (PInt (if negative then - int n else int n)))"

text \<open>\<open>bool(s)\<close>, \<open>str(s)\<close> and \<open>list(s)\<close> for a string \<open>s\<close>.\<close>

definition bool_of_str :: "string \<Rightarrow> exn + pyval" where
  "bool_of_str s = Inr (PBool (s \<noteq> []))"

definition str_of_str :: "string \<Rightarrow> exn + pyval" where
  "str_of_str s = Inr (PStr s)"

definition list_of_str :: "string \<Rightarrow> exn + pyval" where
  "list_of_str s = Inr (PList [PStr [c]. c \<leftarrow> s])"

text \<open>
  \<open>JsonIO.cast_regex\<close> is \<open>(<(?P<data_type>[\w_][\w\d_]*)>)?(?P<raw_data>.*)\<close>.

  \<open>JsonIO._cast_data\<close>: \<open>eval(data_type)\<close> looks the tag up in a namespace, a map from
  names to what calling the named object on a string does; an unbound name is a
  \<open>NameError\<close>.  (A tag that is not a name, such as one that starts with a digit, is
  outside this model of \<open>eval\<close>.)
\<close>

definition cast_regex :: rx where
  "cast_regex =
     Seq (Opt (Seq (Lit ''<'') (Seq (Grp ''data_type'' identifier_rx) (Lit ''>''))))
         (Grp ''raw_data'' (Many dot))"

definition cast_data :: "(string \<rightharpoonup> (string \<Rightarrow> exn + pyval)) \<Rightarrow> string \<Rightarrow> exn + pyval" where
  "cast_data namespace data =
     (case re_match cast_regex data of
        None \<Rightarrow> Inl (AttributeError ''NoneType object has no attribute group'')
      | Some m \<Rightarrow>
          let data_type = group m ''data_type'';
              raw_data = (case group m ''raw_data'' of None \<Rightarrow> PNone | Some r \<Rightarrow> PStr r)
          in case data_type of
               None \<Rightarrow> Inr raw_data
             | Some t \<Rightarrow>
                 if t = [] then Inr raw_data
                 else case namespace t of
                        None \<Rightarrow> Inl (NameError t)
                      | Some f \<Rightarrow> f (case group m ''raw_data'' of None \<Rightarrow> [] | Some r \<Rightarrow> r))"

text \<open>
  The builtins among the names of \<open>egg.io\<close> that construct a modelled value from a
  string.  \<open>NoneType\<close> is not a name there.
\<close>

definition io_builtins :: "nat \<Rightarrow> (string \<rightharpoonup> (string \<Rightarrow> exn + pyval))" where
  "io_builtins max_str_digits =
     [''int'' \<mapsto> int_of_str max_str_digits, ''bool'' \<mapsto> bool_of_str,
      ''str'' \<mapsto> str_of_str, ''list'' \<mapsto> list_of_str]"


text \<open>Inputs of the examples, and the step of the decimal reading.\<close>

definition no_repr :: "pyval \<Rightarrow> string" where
  "no_repr v = []"

definition no_fields :: "string \<rightharpoonup> pyval" where
  "no_fields = Map.empty"

definition dec_step :: "nat \<Rightarrow> char \<Rightarrow> nat" where
  "dec_step a c = 10 * a + digit_val c"


section \<open>egg.decorating: objects and their decorators\<close>

text \<open>
  Objects live in a store and are named by references, so that two names of one
  list are one list.  Of an object the model keeps its type, its content when it is a
  builtin value (the items of a list, set, tuple or frozenset are references), its
  \<open>__name__\<close>, its own attribute \<open>__decorators__\<close> (a reference to a list; \<open>None\<close> when
  it has none of its own), whether \<open>obj.__decorators__ = ...\<close> succeeds, and whether
  other attributes can be set on it.  An assignment that does not succeed raises
  \<open>TypeError\<close> or \<open>AttributeError\<close>, as it does on builtins and on slotted objects; a
  \<open>__setattr__\<close> that raises another exception is outside the model.  Floats are kept abstract.
\<close>

type_synonym ref = nat

typedecl pyfloat

datatype cls =
    StrT | IntT | FloatT | BoolT | ListT | SetT | TupleT | FrozensetT
  | FunctionT | BuiltinFunctionT | TypeT
  | InstanceOf ref

datatype payload =
    StrV string | IntV int | FloatV pyfloat | BoolV bool | Items "ref list" | NoContent

record pyobj =
  type_of :: cls
  payload :: payload
  obj_name :: string
  decorators_attr :: "ref option"
  accepts_decorators :: bool
  accepts_attributes :: bool

text \<open>
  A class is an object too; of a class the store keeps, besides, its \<open>__mro__\<close> (the
  class itself first) and its own dictionary.  A function in a dictionary is described
  by what a call of it does: the functions of \<open>object\<close> and \<open>type\<close> by their names; a
  function that raises; a function that returns some object; a function that only
  calls the implementation next in the MRO (\<open>super()\<close>); a function of the repository,
  by its name; a proxy property (\<open>_UnboundMethodProxy\<close>) for a name.  Any other value is
  \<open>Data\<close>.  Of the dictionaries of instances the store keeps the attribute \<open>_obj\<close>.
\<close>

datatype attr =
    ObjectNew | ObjectInit | ObjectInitSubclass
  | TypeCall | TypeNew | TypeInit
  | Raises exn
  | Returns ref
  | CallsSuper
  | Method string
  | Proxy string
  | Data ref

record pyclass =
  class_mro :: "ref list"
  class_dict :: "string \<rightharpoonup> attr"

record store =
  objects :: "ref \<Rightarrow> pyobj"
  classes :: "ref \<rightharpoonup> pyclass"
  wrapped_obj :: "ref \<rightharpoonup> ref"
  next_ref :: ref

definition alloc :: "pyobj \<Rightarrow> store \<Rightarrow> ref \<times> store" where
  "alloc obj st =
     (next_ref st, st\<lparr> objects := (objects st)(next_ref st := obj), next_ref := Suc (next_ref st) \<rparr>)"

definition items :: "store \<Rightarrow> ref \<Rightarrow> ref list" where
  "items st l = (case payload (objects st l) of Items xs \<Rightarrow> xs | _ \<Rightarrow> [])"

definition new_list :: "ref list \<Rightarrow> pyobj" where
  "new_list xs = \<lparr> type_of = ListT, payload = Items xs, obj_name = [], decorators_attr = None,
                    accepts_decorators = False, accepts_attributes = False \<rparr>"

text \<open>
  \<open>obj.__decorators__\<close>, with \<open>None\<close> for \<open>hasattr(obj, "__decorators__")\<close> being false:
  the object's own attribute, else the attribute of the first class that has one
  among the classes where the lookup goes on: the rest of the MRO for a class, the
  MRO of its class for an instance.
\<close>

definition search_path :: "store \<Rightarrow> ref \<Rightarrow> ref list" where
  "search_path st obj =
     obj # (case classes st obj of
              Some k \<Rightarrow> tl (class_mro k)
            | None \<Rightarrow> (case type_of (objects st obj) of
                         InstanceOf c \<Rightarrow> (case classes st c of Some k \<Rightarrow> class_mro k | None \<Rightarrow> [])
                       | _ \<Rightarrow> []))"

definition getattr_decorators :: "store \<Rightarrow> ref \<Rightarrow> ref option" where
  "getattr_decorators st obj =
     (case List.map_filter (\<lambda>r. decorators_attr (objects st r)) (search_path st obj) of
        [] \<Rightarrow> None
      | l # _ \<Rightarrow> Some l)"

text \<open>
  \<open>has_decorator(obj, decorator_)\<close>:
  \<^verbatim>\<open>hasattr(obj, "__decorators__") and any(decorator_ is d for d in obj.__decorators__)\<close>.
\<close>

definition has_decorator :: "store \<Rightarrow> ref \<Rightarrow> ref \<Rightarrow> bool" where
  "has_decorator st obj decorator' =
     (case getattr_decorators st obj of
        None \<Rightarrow> False
      | Some l \<Rightarrow> list_ex (\<lambda>d. decorator' = d) (items st l))"

text \<open>
  \<open>decorators_of(obj)\<close>: the list that \<open>obj.__decorators__\<close> is, or a new empty list,
  is assigned to \<open>obj.__decorators__\<close>; \<open>None\<close> is returned when the assignment raises
  \<open>TypeError\<close> or \<open>AttributeError\<close>.
\<close>

definition decorators_of :: "ref \<Rightarrow> store \<Rightarrow> ref option \<times> store" where
  "decorators_of obj st =
     (let (decorators, st1) =
            (case getattr_decorators st obj of
               Some l \<Rightarrow> (l, st)
             | None \<Rightarrow> alloc (new_list []) st)
      in if accepts_decorators (objects st1 obj)
         then (Some decorators,
               st1\<lparr> objects := (objects st1)(obj := (objects st1 obj)\<lparr> decorators_attr := Some decorators \<rparr>) \<rparr>)
         else (None, st1))"

text \<open>\<open>l.extend(xs)\<close> and \<open>l.append(x)\<close> on the list object \<open>l\<close>.\<close>

definition list_extend :: "ref \<Rightarrow> ref list \<Rightarrow> store \<Rightarrow> store" where
  "list_extend l xs st =
     st\<lparr> objects := (objects st)(l := (objects st l)\<lparr> payload := Items (items st l @ xs) \<rparr>) \<rparr>"

definition list_append :: "ref \<Rightarrow> ref \<Rightarrow> store \<Rightarrow> store" where
  "list_append l x st = list_extend l [x] st"

text \<open>
  \<open>functools.update_wrapper(ret, obj, updated=())\<close>: the attributes of
  \<open>WRAPPER_ASSIGNMENTS\<close> that \<open>obj\<close> has are set on \<open>ret\<close> (of these the model keeps
  \<open>__name__\<close>), then \<open>ret.__wrapped__\<close>; setting an attribute on an object that takes
  none raises \<open>AttributeError\<close>.
\<close>

definition update_wrapper :: "ref \<Rightarrow> ref \<Rightarrow> store \<Rightarrow> (exn + ref) \<times> store" where
  "update_wrapper ret obj st =
     (if accepts_attributes (objects st ret)
      then (Inr ret, st\<lparr> objects := (objects st)(ret := (objects st ret)\<lparr> obj_name := obj_name (objects st obj) \<rparr>) \<rparr>)
      else (Inl (AttributeError ''__wrapped__''), st))"

text \<open>
  A \<open>_Decorator\<close>: the decorator object itself, the function \<open>__wrapped__\<close> (it takes
  its arguments and the store, and returns an object or raises), the name of that
  function, the options, and \<open>__self__\<close>.
\<close>

record decorator =
  self_ref :: ref
  wrapped :: "ref list \<Rightarrow> store \<Rightarrow> (exn + ref) \<times> store"
  wrapped_name :: string
  only_once :: bool
  traceable :: bool
  bound_self :: "ref option"

text \<open>
  \<open>decorator(function)\<close>, the form that the library uses on its own decorators:
  \<open>_Decorator(function, only_once=False, traceable=True)\<close>; and
  \<open>decorator(only_once=..., traceable=...)(func)\<close>.
\<close>

definition Decorator_init ::
  "ref \<Rightarrow> (ref list \<Rightarrow> store \<Rightarrow> (exn + ref) \<times> store) \<Rightarrow> string \<Rightarrow> bool \<Rightarrow> bool \<Rightarrow> decorator" where
  "Decorator_init self function fname only_once_arg traceable_arg =
     \<lparr> self_ref = self, wrapped = function, wrapped_name = fname,
       only_once = only_once_arg, traceable = traceable_arg, bound_self = None \<rparr>"

definition decorator_plain ::
  "ref \<Rightarrow> (ref list \<Rightarrow> store \<Rightarrow> (exn + ref) \<times> store) \<Rightarrow> string \<Rightarrow> decorator" where
  "decorator_plain self function fname = Decorator_init self function fname False True"

definition cannot_add_decorators :: string where
  "cannot_add_decorators = ''The __decorators__ field can't be added to the given object.''"

text \<open>\<open>_Decorator._call_internal(obj)\<close>, which \<open>_Decorator.__call__\<close> calls.\<close>

definition call_internal :: "decorator \<Rightarrow> ref \<Rightarrow> store \<Rightarrow> (exn + ref) \<times> store" where
  "call_internal self obj st0 =
     (let (applied, st1) =
            (if only_once self
             then (case decorators_of obj st0 of
                     (Some l, st) \<Rightarrow> (list_ex (\<lambda>d. d = self_ref self) (items st l), st)
                   | (None, st) \<Rightarrow> (False, st))
             else (False, st0))
      in if applied
         then (Inl (ValueError (''Decorator '' @ wrapped_name self
                      @ '' can only be applied once per object'')), st1)
         else
           case wrapped self ((case bound_self self of None \<Rightarrow> [] | Some s \<Rightarrow> [s]) @ [obj]) st1 of
             (Inl e, st2) \<Rightarrow> (Inl e, st2)
           | (Inr ret, st2) \<Rightarrow>
               (case decorators_of ret st2 of
                  (None, st3) \<Rightarrow> (Inl (TypeError cannot_add_decorators), st3)
                | (Some decorators, st3) \<Rightarrow>
                    let (base_decorators, st4) = decorators_of obj st3;
                        st5 = (case base_decorators of
                                 None \<Rightarrow> st4
                               | Some b \<Rightarrow> if items st4 b \<noteq> []
                                           then list_extend decorators (items st4 b) st4 else st4);
                        st6 = list_append decorators (self_ref self) st5
                    in update_wrapper ret obj st6))"

text \<open>
  \<open>annotation.__call__(self, annotated)\<close>: \<^verbatim>\<open>return annotated\<close>.  The annotation is
  the object \<open>self\<close>.
\<close>

definition annotation_call :: "ref \<Rightarrow> ref \<Rightarrow> store \<Rightarrow> (exn + ref) \<times> store" where
  "annotation_call self annotated st = (Inr annotated, st)"


section \<open>egg.modifiers: \<open>call_once\<close>\<close>

text \<open>
  The function that \<open>@decorator\<close> wraps into \<open>call_once\<close>: it defines the function
  \<open>_wrapper\<close>, a new function object, and returns it.
\<close>

definition new_function :: "string \<Rightarrow> pyobj" where
  "new_function name = \<lparr> type_of = FunctionT, payload = NoContent, obj_name = name,
       decorators_attr = None, accepts_decorators = True, accepts_attributes = True \<rparr>"

definition call_once_function :: "ref list \<Rightarrow> store \<Rightarrow> (exn + ref) \<times> store" where
  "call_once_function args st =
     (case args of
        [func] \<Rightarrow> (case alloc (new_function ''_wrapper'') st of (w, st') \<Rightarrow> (Inr w, st'))
      | _ \<Rightarrow> (Inl (TypeError ''call_once() takes 1 positional argument''), st))"

definition call_once :: "ref \<Rightarrow> decorator" where
  "call_once self = decorator_plain self call_once_function ''call_once''"

text \<open>
  The function \<open>_wrapper\<close> that \<open>call_once(func)\<close> returns.  Its attribute \<open>__called__\<close>
  is the field \<open>called\<close> of the state (\<open>getattr(_wrapper, "__called__", False)\<close> is
  false on the new function); the rest of the state is \<open>world\<close>.  \<open>func\<close> runs on the
  whole state: it may call \<open>_wrapper\<close> again.
\<close>

record 'w call_state =
  called :: bool
  world :: 'w

definition call_once_wrapper ::
  "string \<Rightarrow> ('a \<Rightarrow> 'w call_state \<Rightarrow> (exn + 'r) \<times> 'w call_state) \<Rightarrow>
   'a \<Rightarrow> 'w call_state \<Rightarrow> (exn + 'r) \<times> 'w call_state" where
  "call_once_wrapper func_name func args s =
     (if called s
      then (Inl (NameError (''Can't call function '' @ func_name @ '' twice.'')), s)
      else func args (s\<lparr> called := True \<rparr>))"

text \<open>Calls of the wrapper one after the other; the outcomes in order.\<close>

fun wrapper_calls ::
  "string \<Rightarrow> ('a \<Rightarrow> 'w call_state \<Rightarrow> (exn + 'r) \<times> 'w call_state) \<Rightarrow>
   'a list \<Rightarrow> 'w call_state \<Rightarrow> (exn + 'r) list \<times> 'w call_state" where
  "wrapper_calls func_name func [] s = ([], s)"
| "wrapper_calls func_name func (a # as) s =
     (case call_once_wrapper func_name func a s of
        (r, s1) \<Rightarrow> (case wrapper_calls func_name func as s1 of (rs, s2) \<Rightarrow> (r # rs, s2)))"

text \<open>Examples: a builtin function and a function in a store, and functions to wrap.\<close>

definition builtin_function :: "string \<Rightarrow> pyobj" where
  "builtin_function name = \<lparr> type_of = BuiltinFunctionT, payload = NoContent, obj_name = name,
       decorators_attr = None, accepts_decorators = False, accepts_attributes = False \<rparr>"

definition example_objects :: "ref \<Rightarrow> pyobj" where
  "example_objects r = (if r = 0 then builtin_function ''len'' else new_function ''foo'')"

definition example_store :: store where
  "example_store = \<lparr> objects = example_objects, classes = Map.empty, wrapped_obj = Map.empty, next_ref = 3 \<rparr>"

definition undefined_name :: "unit \<Rightarrow> unit call_state \<Rightarrow> (exn + unit) \<times> unit call_state" where
  "undefined_name a s = (Inl (NameError ''name 'x' is not defined''), s)"

definition fresh_call_state :: "unit call_state" where
  "fresh_call_state = \<lparr> called = False, world = () \<rparr>"

definition count_calls :: "nat \<Rightarrow> nat call_state \<Rightarrow> (exn + nat) \<times> nat call_state" where
  "count_calls a s = (Inr (a + world s), s\<lparr> world := Suc (world s) \<rparr>)"

definition counting_state :: "nat call_state" where
  "counting_state = \<lparr> called = False, world = 0 \<rparr>"


section \<open>Classes: the \<open>class\<close> statement\<close>

text \<open>
  The C3 linearisation that computes \<open>__mro__\<close>: \<open>c3_merge\<close> merges the MROs of the bases
  and the list of the bases; the next class is the first head that is in no tail.
  \<open>None\<close> stands for the \<open>TypeError\<close> of an inconsistent hierarchy.
\<close>

definition c3_candidate :: "ref list list \<Rightarrow> ref option" where
  "c3_candidate seqs = find (\<lambda>h. list_all (\<lambda>s. h \<notin> set (tl s)) seqs) (map hd seqs)"

function c3_merge :: "ref list list \<Rightarrow> ref list option" where
  "c3_merge seqs =
     (let seqs' = filter (\<lambda>s. s \<noteq> []) seqs in
      if seqs' = [] then Some []
      else case c3_candidate seqs' of
             None \<Rightarrow> None
           | Some h \<Rightarrow>
               map_option ((#) h) (c3_merge (map (\<lambda>s. if hd s = h then tl s else s) seqs')))"
  by pat_completeness auto
termination
proof (relation "measure (\<lambda>seqs. sum_list (map length seqs))")
  show "wf (measure (\<lambda>seqs. sum_list (map length seqs)))" by simp
next
  fix seqs :: "ref list list" and seqs' h
  assume s: "seqs' = filter (\<lambda>s. s \<noteq> []) seqs" and "seqs' \<noteq> []"
    and c: "c3_candidate seqs' = Some h"
  from c have "h \<in> set (map hd seqs')"
    unfolding c3_candidate_def by (auto simp: find_Some_iff)
  then obtain t where t: "t \<in> set seqs'" "hd t = h" by auto
  then have tne: "t \<noteq> []" using s by auto
  have le: "sum_list (map length (map (\<lambda>s. if hd s = h then tl s else s) xs))
              \<le> sum_list (map length xs)" for xs :: "ref list list"
    by (induction xs) auto
  have lt: "t \<in> set xs \<Longrightarrow>
        sum_list (map length (map (\<lambda>s. if hd s = h then tl s else s) xs))
          < sum_list (map length xs)" for xs :: "ref list list"
  proof (induction xs)
    case Nil
    then show ?case by simp
  next
    case (Cons x xs)
    show ?case
    proof (cases "x = t")
      case True
      then have "length (tl x) < length x" using tne by (cases x) auto
      then show ?thesis using True t(2) le[of xs] by simp
    next
      case False
      then have "t \<in> set xs" using Cons.prems by simp
      from Cons.IH[OF this] show ?thesis by auto
    qed
  qed
  have "sum_list (map length seqs') \<le> sum_list (map length seqs)"
    unfolding s by (induction seqs) auto
  then show "(map (\<lambda>s. if hd s = h then tl s else s) seqs', seqs)
          \<in> measure (\<lambda>seqs. sum_list (map length seqs))"
    using lt[OF t(1)] by simp
qed

declare c3_merge.simps [simp del]

text \<open>
  In every store \<open>object\<close>, \<open>type\<close> and \<open>None\<close> are the objects 0, 1 and 2.  The classes
  of the model have the metaclass \<open>type\<close>.
\<close>

definition object_ref :: ref where "object_ref = 0"
definition type_ref :: ref where "type_ref = 1"
definition none_ref :: ref where "none_ref = 2"

definition class_object :: "string \<Rightarrow> pyobj" where
  "class_object name = \<lparr> type_of = TypeT, payload = NoContent, obj_name = name,
       decorators_attr = None, accepts_decorators = True, accepts_attributes = True \<rparr>"

definition builtin_class :: "string \<Rightarrow> pyobj" where
  "builtin_class name = \<lparr> type_of = TypeT, payload = NoContent, obj_name = name,
       decorators_attr = None, accepts_decorators = False, accepts_attributes = False \<rparr>"

definition none_object :: pyobj where
  "none_object = \<lparr> type_of = InstanceOf 2, payload = NoContent, obj_name = [],
       decorators_attr = None, accepts_decorators = False, accepts_attributes = False \<rparr>"

definition the_object_class :: pyclass where
  "the_object_class = \<lparr> class_mro = [object_ref],
       class_dict = [''__new__'' \<mapsto> ObjectNew, ''__init__'' \<mapsto> ObjectInit,
                     ''__init_subclass__'' \<mapsto> ObjectInitSubclass] \<rparr>"

definition the_type_class :: pyclass where
  "the_type_class = \<lparr> class_mro = [type_ref, object_ref],
       class_dict = [''__call__'' \<mapsto> TypeCall, ''__new__'' \<mapsto> TypeNew, ''__init__'' \<mapsto> TypeInit] \<rparr>"

definition mro_of :: "store \<Rightarrow> ref \<Rightarrow> ref list" where
  "mro_of st c = (case classes st c of Some k \<Rightarrow> class_mro k | None \<Rightarrow> [])"

definition own_attr :: "store \<Rightarrow> ref \<Rightarrow> string \<Rightarrow> attr option" where
  "own_attr st c name = (case classes st c of Some k \<Rightarrow> class_dict k name | None \<Rightarrow> None)"

text \<open>The attribute \<open>name\<close> looked up along a list of classes: the first that has it.\<close>

fun lookup_along :: "store \<Rightarrow> string \<Rightarrow> ref list \<Rightarrow> attr option" where
  "lookup_along st name [] = None"
| "lookup_along st name (c # cs) =
     (case own_attr st c name of Some a \<Rightarrow> Some a | None \<Rightarrow> lookup_along st name cs)"

definition class_getattr :: "store \<Rightarrow> ref \<Rightarrow> string \<Rightarrow> attr option" where
  "class_getattr st c name = lookup_along st name (mro_of st c)"

text \<open>
  \<open>super(cls, cls).__init_subclass__()\<close>, which \<open>type.__new__\<close> calls on the new class:
  the hook of the first class of the rest of the MRO that defines one runs; a hook
  that calls \<open>super()\<close> hands over to the classes after it.  The result is the
  exception raised, if any.
\<close>

fun init_subclass :: "store \<Rightarrow> ref list \<Rightarrow> exn option" where
  "init_subclass st [] = Some (AttributeError ''__init_subclass__'')"
| "init_subclass st (c # cs) =
     (case own_attr st c ''__init_subclass__'' of
        None \<Rightarrow> init_subclass st cs
      | Some ObjectInitSubclass \<Rightarrow> None
      | Some (Raises e) \<Rightarrow> Some e
      | Some (Returns r) \<Rightarrow> None
      | Some CallsSuper \<Rightarrow> init_subclass st cs
      | Some _ \<Rightarrow> Some (TypeError ''__init_subclass__ is not callable this way''))"

text \<open>
  \<open>type.__new__(metaclass, name, bases, body)\<close>: the MRO is computed, the class is
  created with the body as its dictionary, then \<open>__init_subclass__\<close> runs; when that
  raises the call raises (the class object stays behind, unnamed).  The type of the
  new class object is the metaclass.
\<close>

definition type_new ::
  "ref \<Rightarrow> string \<Rightarrow> ref list \<Rightarrow> (string \<rightharpoonup> attr) \<Rightarrow> store \<Rightarrow> (exn + ref) \<times> store" where
  "type_new metaclass name bases body st =
     (let bases' = (if bases = [] then [object_ref] else bases) in
      if \<not> list_all (\<lambda>b. classes st b \<noteq> None) bases'
      then (Inl (TypeError ''bases must be types''), st)
      else if \<not> distinct bases' then (Inl (TypeError ''duplicate base class''), st)
      else case c3_merge (map (mro_of st) bases' @ [bases']) of
             None \<Rightarrow> (Inl (TypeError ''Cannot create a consistent method resolution order (MRO)''), st)
           | Some m \<Rightarrow>
               (case alloc ((class_object name)\<lparr> type_of :=
                              (if metaclass = type_ref then TypeT else InstanceOf metaclass) \<rparr>) st of
                  (c, st1) \<Rightarrow>
                    let st2 = st1\<lparr> classes := (classes st1)(c \<mapsto> \<lparr> class_mro = c # m, class_dict = body \<rparr>) \<rparr>
                    in case init_subclass st2 m of
                         Some e \<Rightarrow> (Inl e, st2)
                       | None \<Rightarrow> (Inr c, st2)))"

text \<open>
  The statement \<open>class name(*bases): body\<close>, for bases whose metaclass is \<open>type\<close>:
  \<open>type(name, bases, body)\<close>, which is \<open>type.__new__\<close> and \<open>type.__init__\<close>.
\<close>

definition class_statement ::
  "string \<Rightarrow> ref list \<Rightarrow> (string \<rightharpoonup> attr) \<Rightarrow> store \<Rightarrow> (exn + ref) \<times> store" where
  "class_statement name bases body st = type_new type_ref name bases body st"

text \<open>
  The function that a call of the attribute \<open>name\<close> ends in, along a list of classes:
  a function that only calls \<open>super()\<close> hands over to the classes after it.
\<close>

fun effective :: "store \<Rightarrow> string \<Rightarrow> ref list \<Rightarrow> attr option" where
  "effective st name [] = None"
| "effective st name (c # cs) =
     (case own_attr st c name of
        None \<Rightarrow> effective st name cs
      | Some CallsSuper \<Rightarrow> effective st name cs
      | Some a \<Rightarrow> Some a)"

text \<open>
  The statement \<open>class name(*bases, metaclass=metaclass): body\<close>, which is the call
  \<open>metaclass(name, bases, body)\<close> of \<open>type.__call__\<close>: the \<open>__new__\<close> of the metaclass,
  then its \<open>__init__\<close> when \<open>__new__\<close> made a class.
\<close>

definition class_statement_metaclass ::
  "ref \<Rightarrow> string \<Rightarrow> ref list \<Rightarrow> (string \<rightharpoonup> attr) \<Rightarrow> store \<Rightarrow> (exn + ref) \<times> store" where
  "class_statement_metaclass metaclass name bases body st =
     (case effective st ''__new__'' (mro_of st metaclass) of
        Some TypeNew \<Rightarrow>
          (case type_new metaclass name bases body st of
             (Inl e, st1) \<Rightarrow> (Inl e, st1)
           | (Inr c, st1) \<Rightarrow>
               (case effective st1 ''__init__'' (mro_of st1 metaclass) of
                  Some TypeInit \<Rightarrow> (Inr c, st1)
                | Some ObjectInit \<Rightarrow> (Inl (TypeError ''object.__init__() takes exactly one argument''), st1)
                | Some (Raises e) \<Rightarrow> (Inl e, st1)
                | Some (Returns r) \<Rightarrow>
                    if r = none_ref then (Inr c, st1)
                    else (Inl (TypeError ''__init__() should return None''), st1)
                | _ \<Rightarrow> (Inl (TypeError ''__init__ is not callable this way''), st1)))
      | Some (Raises e) \<Rightarrow> (Inl e, st)
      | Some (Returns r) \<Rightarrow> (Inr r, st)
      | _ \<Rightarrow> (Inl (TypeError ''__new__ is not callable this way''), st))"

text \<open>
  The call \<open>cls(*args)\<close> of a class: \<open>__call__\<close> is looked up on the type of the class,
  which is \<open>type\<close> or the metaclass.  \<open>type.__call__\<close> calls \<open>cls.__new__\<close> and, on the
  new instance, \<open>cls.__init__\<close>; \<open>object.__new__\<close> refuses arguments when the class
  overrides neither.
\<close>

definition instance_object :: "ref \<Rightarrow> pyobj" where
  "instance_object cls = \<lparr> type_of = InstanceOf cls, payload = NoContent, obj_name = [],
       decorators_attr = None, accepts_decorators = True, accepts_attributes = True \<rparr>"




section \<open>egg.modifiers: \<open>final\<close>\<close>

text \<open>
  The function that \<open>@decorator\<close> wraps into \<open>final\<close>.  For a class it is
  \<^verbatim>\<open>class Final(cls_or_method):
      def __init_subclass__(cls, **kwargs):
          raise TypeError(f"Can't subclass final class {cls_or_method.__name__}")\<close>
  and anything else is returned as it is.
\<close>

definition final_function :: "ref list \<Rightarrow> store \<Rightarrow> (exn + ref) \<times> store" where
  "final_function args st =
     (case args of
        [cls_or_method] \<Rightarrow>
          if classes st cls_or_method \<noteq> None
          then class_statement ''Final'' [cls_or_method]
                 [''__init_subclass__'' \<mapsto>
                    Raises (TypeError (''Can't subclass final class ''
                              @ obj_name (objects st cls_or_method)))] st
          else (Inr cls_or_method, st)
      | _ \<Rightarrow> (Inl (TypeError ''final() takes 1 positional argument''), st))"

definition final :: "ref \<Rightarrow> decorator" where
  "final self = decorator_plain self final_function ''final''"

text \<open>
  A store with a class \<open>A\<close> (object 3) and a class \<open>Mixin\<close> (object 4) whose
  \<open>__init_subclass__\<close> returns without calling \<open>super()\<close>; object 5 is the decorator.
\<close>

definition class_objects :: "ref \<Rightarrow> pyobj" where
  "class_objects r =
     (if r = 0 then builtin_class ''object'' else if r = 1 then builtin_class ''type''
      else if r = 2 then none_object else if r = 3 then class_object ''A''
      else if r = 4 then class_object ''Mixin'' else new_function ''decorator'')"

definition class_table :: "ref \<rightharpoonup> pyclass" where
  "class_table =
     [0 \<mapsto> the_object_class, 1 \<mapsto> the_type_class,
      3 \<mapsto> \<lparr> class_mro = [3, 0], class_dict = Map.empty \<rparr>,
      4 \<mapsto> \<lparr> class_mro = [4, 0], class_dict = [''__init_subclass__'' \<mapsto> Returns none_ref] \<rparr>]"

definition class_store :: store where
  "class_store = \<lparr> objects = class_objects, classes = class_table, wrapped_obj = Map.empty, next_ref = 6 \<rparr>"


definition empty_body :: "string \<rightharpoonup> attr" where
  "empty_body = Map.empty"



section \<open>egg.modifiers: \<open>freeze\<close>\<close>

text \<open>
  \<open>_frozen_builtins_mapping\<close>: from the builtin types to the types of their frozen
  counterparts.
\<close>

definition frozen_builtins_mapping :: "cls \<rightharpoonup> cls" where
  "frozen_builtins_mapping =
     [StrT \<mapsto> StrT, IntT \<mapsto> IntT, FloatT \<mapsto> FloatT, BoolT \<mapsto> BoolT,
      ListT \<mapsto> TupleT, SetT \<mapsto> FrozensetT]"

text \<open>\<open>cls.__name__\<close> for the type of an object.\<close>

definition type_name_of :: "store \<Rightarrow> cls \<Rightarrow> string" where
  "type_name_of st t =
     (case t of
        StrT \<Rightarrow> ''str'' | IntT \<Rightarrow> ''int'' | FloatT \<Rightarrow> ''float'' | BoolT \<Rightarrow> ''bool''
      | ListT \<Rightarrow> ''list'' | SetT \<Rightarrow> ''set'' | TupleT \<Rightarrow> ''tuple'' | FrozensetT \<Rightarrow> ''frozenset''
      | FunctionT \<Rightarrow> ''function'' | BuiltinFunctionT \<Rightarrow> ''builtin_function_or_method''
      | TypeT \<Rightarrow> ''type'' | InstanceOf c \<Rightarrow> obj_name (objects st c))"

text \<open>
  The call \<open>_frozen_builtins_mapping[type(obj)](obj)\<close>, for the six pairs of the
  mapping.  \<open>str\<close>, \<open>int\<close>, \<open>float\<close> and \<open>bool\<close> applied to an object of exactly that
  type return the object; \<open>tuple\<close> of a list and \<open>frozenset\<close> of a set are new objects
  with the items of the argument.
\<close>

definition new_container :: "cls \<Rightarrow> ref list \<Rightarrow> pyobj" where
  "new_container t xs = \<lparr> type_of = t, payload = Items xs, obj_name = [], decorators_attr = None,
       accepts_decorators = False, accepts_attributes = False \<rparr>"

definition construct :: "cls \<Rightarrow> ref \<Rightarrow> store \<Rightarrow> (exn + ref) \<times> store" where
  "construct t obj st =
     (if t = TupleT \<or> t = FrozensetT
      then (case alloc (new_container t (items st obj)) st of (r, st') \<Rightarrow> (Inr r, st'))
      else (Inr obj, st))"

text \<open>\<open>has_decorator(obj.__class__, decorator)\<close>; a builtin type has no \<open>__decorators__\<close>.\<close>

definition class_has_decorator :: "store \<Rightarrow> cls \<Rightarrow> ref \<Rightarrow> bool" where
  "class_has_decorator st t d = (case t of InstanceOf c \<Rightarrow> has_decorator st c d | _ \<Rightarrow> False)"

text \<open>
  \<open>freeze(obj, in_place=False)\<close>.  The two guards are those of the source.  What
  follows them for an instance of a class marked \<open>freezable\<close> (the deep copy, the loop
  over \<open>dir(obj)\<close> that replaces methods and properties and freezes the fields, and
  \<open>obj.__frozen__ = True\<close>) is the argument \<open>freeze_instance\<close>; \<open>str_of\<close> is \<open>str(obj)\<close> in
  the message; \<open>freezable\<close> is the annotation object.
\<close>

definition freeze ::
  "(ref \<Rightarrow> bool \<Rightarrow> store \<Rightarrow> (exn + ref) \<times> store) \<Rightarrow> (store \<Rightarrow> ref \<Rightarrow> string) \<Rightarrow> ref \<Rightarrow>
   ref \<Rightarrow> bool \<Rightarrow> store \<Rightarrow> (exn + ref) \<times> store" where
  "freeze freeze_instance str_of freezable obj in_place st =
     (let t = type_of (objects st obj) in
      case frozen_builtins_mapping t of
        Some frozen \<Rightarrow>
          if in_place
          then (Inl (UnfreezableObjectError (''Can't freeze in place builtin '' @ type_name_of st t)), st)
          else construct frozen obj st
      | None \<Rightarrow>
          if \<not> class_has_decorator st t freezable
          then (Inl (UnfreezableObjectError (''Can't freeze unfreezable object '' @ str_of st obj)), st)
          else freeze_instance obj in_place st)"

text \<open>A store with the integer 3, the string \<open>a\<close> and the list of the two.\<close>

definition value_objects :: "ref \<Rightarrow> pyobj" where
  "value_objects r =
     (if r = 0 then \<lparr> type_of = IntT, payload = IntV 3, obj_name = [], decorators_attr = None,
                      accepts_decorators = False, accepts_attributes = False \<rparr>
      else if r = 1 then \<lparr> type_of = StrT, payload = StrV ''a'', obj_name = [], decorators_attr = None,
                      accepts_decorators = False, accepts_attributes = False \<rparr>
      else new_list [0, 1])"

definition value_store :: store where
  "value_store = \<lparr> objects = value_objects, classes = Map.empty, wrapped_obj = Map.empty, next_ref = 3 \<rparr>"

definition no_freeze_instance :: "ref \<Rightarrow> bool \<Rightarrow> store \<Rightarrow> (exn + ref) \<times> store" where
  "no_freeze_instance obj in_place st = (Inr obj, st)"

definition no_str_of :: "store \<Rightarrow> ref \<Rightarrow> string" where
  "no_str_of st obj = []"


section \<open>egg.modifiers: \<open>singleton\<close>\<close>

text \<open>
  The function that \<open>@decorator\<close> wraps into \<open>singleton\<close>:
  \<^verbatim>\<open>if cls_.__init__ is not object.__init__: raise TypeError(...)
  class SingletonMeta(cls_, type): __instancecheck__, __subclasscheck__
  class Singleton(metaclass=SingletonMeta):
      def __new__(cls, *args, **kwargs): raise ValueError(f"Can't init singleton {cls.__name__}")
      def __init_subclass__(cls, **kwargs): raise ValueError(f"Can't subclass singleton {cls_.__name__}")
  return Singleton\<close>
  When \<open>__new__\<close> raises, \<open>cls.__name__\<close> is the name that \<open>update_wrapper\<close> copied from
  \<open>cls_\<close>.
\<close>

definition singleton_function :: "ref list \<Rightarrow> store \<Rightarrow> (exn + ref) \<times> store" where
  "singleton_function args st =
     (case args of
        [cls'] \<Rightarrow>
          if class_getattr st cls' ''__init__'' \<noteq> Some ObjectInit
          then (Inl (TypeError ''Singletons can't own a custom __init__ method''), st)
          else
            (case class_statement ''SingletonMeta'' [cls', type_ref]
                    [''__instancecheck__'' \<mapsto> Method ''SingletonMeta.__instancecheck__'',
                     ''__subclasscheck__'' \<mapsto> Method ''SingletonMeta.__subclasscheck__''] st of
               (Inl e, st1) \<Rightarrow> (Inl e, st1)
             | (Inr SingletonMeta, st1) \<Rightarrow>
                 class_statement_metaclass SingletonMeta ''Singleton'' []
                   [''__new__'' \<mapsto>
                      Raises (ValueError (''Can't init singleton '' @ obj_name (objects st cls'))),
                    ''__init_subclass__'' \<mapsto>
                      Raises (ValueError (''Can't subclass singleton '' @ obj_name (objects st cls')))]
                   st1)
      | _ \<Rightarrow> (Inl (TypeError ''singleton() takes 1 positional argument''), st))"

definition singleton :: "ref \<Rightarrow> decorator" where
  "singleton self = decorator_plain self singleton_function ''singleton''"









section \<open>egg.modifiers: wrappers\<close>

text \<open>
  The class \<open>_WrapperBase\<close>, the object \<open>wb\<close> of the store, and the names of
  \<open>__ignore__\<close>: the ten dunder names and the keys of \<open>vars(_WrapperBase)\<close>.
\<close>

definition wrapper_base_class :: "ref \<Rightarrow> pyclass" where
  "wrapper_base_class wb = \<lparr> class_mro = [wb, object_ref],
       class_dict = [''__new__'' \<mapsto> Method ''_WrapperBase.__new__'',
                     ''__init__'' \<mapsto> Method ''_WrapperBase.__init__'',
                     ''_cls'' \<mapsto> Method ''_WrapperBase._cls'',
                     ''__unwrap__'' \<mapsto> Method ''_WrapperBase.__unwrap__'',
                     ''__wrap__'' \<mapsto> Method ''_WrapperBase.__wrap__'',
                     ''__getattr__'' \<mapsto> Method ''_WrapperBase.__getattr__'',
                     ''__setattr__'' \<mapsto> Method ''_WrapperBase.__setattr__''] \<rparr>"

definition ignore_names :: "string list" where
  "ignore_names =
     [''__class__'', ''__mro__'', ''__new__'', ''__init__'', ''__setattr__'', ''__getattr__'',
      ''__getattribute__'', ''__unwrap__'', ''__wrap__'', ''__repr__'',
      ''__module__'', ''__doc__'', ''__annotations__'', ''_cls'', ''__dict__'', ''__weakref__'']"

text \<open>\<open>name in dir(cls)\<close>: the class or a class of its MRO has the attribute.\<close>

definition in_dir :: "store \<Rightarrow> ref \<Rightarrow> string \<Rightarrow> bool" where
  "in_dir st c name = (class_getattr st c name \<noteq> None)"

text \<open>
  \<open>wrapper(of=of)(wrapper_prototype)\<close>: the statement
  \<^verbatim>\<open>class Wrapper(_WrapperBase, wrapper_prototype, of):
      __wraps__ = of; __prototype__ = wrapper_prototype; __repr__ = ...\<close>,
  then, for every name of \<open>dir(of)\<close> that is neither in \<open>dir(wrapper_prototype)\<close> nor in
  \<open>__ignore__\<close>, \<open>setattr(Wrapper, name, ...)\<close> with a proxy property when the attribute
  of \<open>of\<close> is callable and with the attribute itself when it is not, and the new
  \<open>__name__\<close>.  (The attributes are read from \<open>of\<close>: a loop that replaces
  \<open>Wrapper.__wraps__\<close> on its way is not followed further.)
\<close>

definition proxy_attr :: "store \<Rightarrow> ref \<Rightarrow> ref \<Rightarrow> (string \<rightharpoonup> attr) \<Rightarrow> string \<rightharpoonup> attr" where
  "proxy_attr st of' wrapper_prototype d name =
     (if in_dir st of' name \<and> \<not> in_dir st wrapper_prototype name \<and> name \<notin> set ignore_names
      then (case class_getattr st of' name of
              Some (Data r) \<Rightarrow> Some (Data r)
            | Some a \<Rightarrow> Some (Proxy name)
            | None \<Rightarrow> d name)
      else d name)"

definition set_proxies :: "ref \<Rightarrow> ref \<Rightarrow> ref \<Rightarrow> store \<Rightarrow> store" where
  "set_proxies W of' wrapper_prototype st =
     (case classes st W of
        None \<Rightarrow> st
      | Some k \<Rightarrow>
          st\<lparr> classes := (classes st)(W \<mapsto>
                k\<lparr> class_dict := proxy_attr st of' wrapper_prototype (class_dict k) \<rparr>) \<rparr>)"

definition wrapper_body :: "ref \<Rightarrow> ref \<Rightarrow> string \<rightharpoonup> attr" where
  "wrapper_body of' wrapper_prototype =
     [''__wraps__'' \<mapsto> Data of', ''__prototype__'' \<mapsto> Data wrapper_prototype,
      ''__repr__'' \<mapsto> Method ''__repr__'']"

definition wrapper :: "ref \<Rightarrow> ref \<Rightarrow> ref \<Rightarrow> store \<Rightarrow> (exn + ref) \<times> store" where
  "wrapper wb of' wrapper_prototype st =
     (case class_statement ''Wrapper'' [wb, wrapper_prototype, of']
             (wrapper_body of' wrapper_prototype) st of
        (Inl e, st1) \<Rightarrow> (Inl e, st1)
      | (Inr W, st1) \<Rightarrow>
          let st2 = set_proxies W of' wrapper_prototype st1
          in (Inr W, st2\<lparr> objects := (objects st2)(W := (objects st2 W)
                \<lparr> obj_name := ''Wrapper@'' @ obj_name (objects st2 of') \<rparr>) \<rparr>))"

text \<open>
  \<open>type(obj)\<close>, when it is a class of the table (the builtin types of values are
  not); \<open>isinstance(obj, cls)\<close>; a class attribute that holds an object.
\<close>

definition class_of :: "store \<Rightarrow> ref \<Rightarrow> ref option" where
  "class_of st obj =
     (case type_of (objects st obj) of InstanceOf c \<Rightarrow> Some c | TypeT \<Rightarrow> Some type_ref | _ \<Rightarrow> None)"

definition isinstance :: "store \<Rightarrow> ref \<Rightarrow> ref \<Rightarrow> bool" where
  "isinstance st obj cls =
     (case class_of st obj of Some t \<Rightarrow> cls \<in> set (mro_of st t) | None \<Rightarrow> False)"

definition data_attr :: "store \<Rightarrow> ref \<Rightarrow> string \<Rightarrow> exn + ref" where
  "data_attr st c name =
     (case class_getattr st c name of
        Some (Data r) \<Rightarrow> Inr r
      | Some _ \<Rightarrow> Inl (TypeError (name @ '' is not a class''))
      | None \<Rightarrow> Inl (AttributeError name))"

text \<open>
  \<open>_WrapperBase.__new__(cls, *args, **kwargs)\<close>:
  \<^verbatim>\<open>if cls.__wraps__.__new__ is not object.__new__:
      return cls.__wraps__.__new__(cls, *args, **kwargs)
  return cls.__wraps__.__new__(cls)\<close>
\<close>

definition WrapperBase_new :: "ref \<Rightarrow> store \<Rightarrow> (exn + ref) \<times> store" where
  "WrapperBase_new cls st =
     (case data_attr st cls ''__wraps__'' of
        Inl e \<Rightarrow> (Inl e, st)
      | Inr wraps \<Rightarrow>
          if class_getattr st wraps ''__new__'' \<noteq> Some ObjectNew
          then (case effective st ''__new__'' (mro_of st wraps) of
                  Some (Raises e) \<Rightarrow> (Inl e, st)
                | Some (Returns r) \<Rightarrow> (Inr r, st)
                | Some ObjectNew \<Rightarrow> (case alloc (instance_object cls) st of (w, st1) \<Rightarrow> (Inr w, st1))
                | _ \<Rightarrow> (Inl (TypeError ''__new__ is not callable this way''), st))
          else (case alloc (instance_object cls) st of (w, st1) \<Rightarrow> (Inr w, st1)))"

text \<open>
  The other branch of \<open>_WrapperBase.__init__\<close>, which makes a new object of the
  wrapped class:
  \<^verbatim>\<open>cls = self._cls().__wraps__
  obj = cls.__new__(cls)
  if cls.__init__ is not object.__init__:
      cls.__init__(obj, *args, **kwargs)\<close>
\<close>

definition new_wrapped_object :: "ref \<Rightarrow> store \<Rightarrow> (exn + ref) \<times> store" where
  "new_wrapped_object cls st =
     (case (case effective st ''__new__'' (mro_of st cls) of
              Some ObjectNew \<Rightarrow> (case alloc (instance_object cls) st of (obj, st1) \<Rightarrow> (Inr obj, st1))
            | Some (Raises e) \<Rightarrow> (Inl e, st)
            | Some (Returns r) \<Rightarrow> (Inr r, st)
            | _ \<Rightarrow> (Inl (TypeError ''__new__ is not callable this way''), st)) of
        (Inl e, st1) \<Rightarrow> (Inl e, st1)
      | (Inr obj, st1) \<Rightarrow>
          if class_getattr st1 cls ''__init__'' \<noteq> Some ObjectInit
          then (case effective st1 ''__init__'' (mro_of st1 cls) of
                  Some (Raises e) \<Rightarrow> (Inl e, st1)
                | Some (Returns r) \<Rightarrow> (Inr obj, st1)
                | Some ObjectInit \<Rightarrow> (Inr obj, st1)
                | _ \<Rightarrow> (Inl (TypeError ''__init__ is not callable this way''), st1))
          else (Inr obj, st1))"

text \<open>
  The call \<open>cls.mro()\<close> on an object \<open>cls\<close>, which gives the list that
  \<open>type(args[0]) in ...\<close> searches.  The attribute \<open>mro\<close> is looked up like any other:
  on a class, an attribute named \<open>mro\<close> of the class or of a class of its MRO comes
  before the method of the metaclass, \<open>type.mro\<close> unless the metaclass overrides it,
  which returns the MRO as a list; on another object the attribute is one of its
  class, and without one the lookup raises \<open>AttributeError\<close>.  Calling what was
  found: a function that raises, raises; a function that returns an object gives
  the items of that object when it is a builtin container, and something that is
  not iterable otherwise; any other attribute is not callable without arguments.
\<close>

definition call_found_mro :: "store \<Rightarrow> attr \<Rightarrow> exn + ref list" where
  "call_found_mro st a =
     (case a of
        Raises e \<Rightarrow> Inl e
      | Returns r \<Rightarrow>
          (case payload (objects st r) of
             Items xs \<Rightarrow> Inr xs
           | _ \<Rightarrow> Inl (TypeError ''argument is not iterable''))
      | _ \<Rightarrow> Inl (TypeError ''mro() is not callable this way''))"

definition mro_call :: "store \<Rightarrow> ref \<Rightarrow> exn + ref list" where
  "mro_call st cls =
     (case classes st cls of
        None \<Rightarrow>
          (case (case class_of st cls of Some c \<Rightarrow> class_getattr st c ''mro'' | None \<Rightarrow> None) of
             None \<Rightarrow> Inl (AttributeError ''mro'')
           | Some a \<Rightarrow> call_found_mro st a)
      | Some k \<Rightarrow>
          (case class_getattr st cls ''mro'' of
             Some a \<Rightarrow> call_found_mro st a
           | None \<Rightarrow>
               (case (case class_of st cls of
                        Some metaclass \<Rightarrow> effective st ''mro'' (mro_of st metaclass)
                      | None \<Rightarrow> None) of
                  None \<Rightarrow> Inr (class_mro k)
                | Some a \<Rightarrow> call_found_mro st a)))"

text \<open>
  \<open>_WrapperBase.__init__(self, *args, wrap_it=False, **kwargs)\<close> with the one
  positional argument \<open>arg\<close>:
  \<^verbatim>\<open>if args and type(args[0]) in self.__wraps__.mro() and wrap_it:
      obj = args[0]
  else: ...
  object.__setattr__(self, "_obj", obj)
  type(self).__prototype__.__init__(self)\<close>
  \<open>object.__setattr__\<close> raises \<open>AttributeError\<close> when the class has a proxy property
  named \<open>_obj\<close>: a property without a setter.
\<close>

definition WrapperBase_init :: "ref \<Rightarrow> ref \<Rightarrow> bool \<Rightarrow> store \<Rightarrow> (exn + unit) \<times> store" where
  "WrapperBase_init self arg wrap_it st =
     (case class_of st self of
        None \<Rightarrow> (Inl (AttributeError ''__wraps__''), st)
      | Some cls \<Rightarrow>
          (case data_attr st cls ''__wraps__'' of
             Inl e \<Rightarrow> (Inl e, st)
           | Inr wraps \<Rightarrow>
               (case mro_call st wraps of
                  Inl e \<Rightarrow> (Inl e, st)
                | Inr wraps_mro \<Rightarrow>
                    (case (if (case class_of st arg of Some t \<Rightarrow> t \<in> set wraps_mro | None \<Rightarrow> False)
                              \<and> wrap_it
                           then (Inr arg, st)
                           else new_wrapped_object wraps st) of
                       (Inl e, st1) \<Rightarrow> (Inl e, st1)
                     | (Inr obj, st1) \<Rightarrow>
                         (case class_getattr st1 cls ''_obj'' of
                            Some (Proxy name) \<Rightarrow>
                              (Inl (AttributeError ''property of Wrapper object has no setter''), st1)
                          | _ \<Rightarrow>
                              let st2 = st1\<lparr> wrapped_obj := (wrapped_obj st1)(self \<mapsto> obj) \<rparr>
                              in case data_attr st2 cls ''__prototype__'' of
                                   Inl e \<Rightarrow> (Inl e, st2)
                                 | Inr prototype \<Rightarrow>
                                     (case effective st2 ''__init__'' (mro_of st2 prototype) of
                                        Some ObjectInit \<Rightarrow> (Inr (), st2)
                                      | Some (Raises e) \<Rightarrow> (Inl e, st2)
                                      | Some (Returns r) \<Rightarrow> (Inr (), st2)
                                      | _ \<Rightarrow> (Inl (TypeError ''__init__ is not callable this way''), st2)))))))"

text \<open>
  \<open>_WrapperBase.__wrap__(cls, obj)\<close>: \<^verbatim>\<open>return cls(obj, wrap_it=True)\<close>.  The call of
  the class is \<open>type.__call__\<close>: \<open>__new__\<close>, and \<open>__init__\<close> on what \<open>__new__\<close> returned
  when that is an instance of the class; both are those of \<open>_WrapperBase\<close>.
\<close>

definition WrapperBase_wrap :: "ref \<Rightarrow> ref \<Rightarrow> store \<Rightarrow> (exn + ref) \<times> store" where
  "WrapperBase_wrap cls obj st =
     (case WrapperBase_new cls st of
        (Inl e, st1) \<Rightarrow> (Inl e, st1)
      | (Inr w, st1) \<Rightarrow>
          if isinstance st1 w cls
          then (case WrapperBase_init w obj True st1 of
                  (Inl e, st2) \<Rightarrow> (Inl e, st2)
                | (Inr u, st2) \<Rightarrow> (Inr w, st2))
          else (Inr w, st1))"

text \<open>
  \<open>self._obj\<close>: a proxy property of the class comes before the dictionary of the
  instance and, like \<open>__getattr__\<close> when there is no \<open>_obj\<close> at all, reads \<open>self._obj\<close>
  again, without end.
\<close>

definition get_obj :: "store \<Rightarrow> ref \<Rightarrow> exn + ref" where
  "get_obj st self =
     (case (case class_of st self of Some c \<Rightarrow> class_getattr st c ''_obj'' | None \<Rightarrow> None) of
        Some (Proxy name) \<Rightarrow> Inl (RecursionError ''maximum recursion depth exceeded'')
      | a \<Rightarrow>
          (case wrapped_obj st self of
             Some r \<Rightarrow> Inr r
           | None \<Rightarrow>
               (case a of
                  Some (Data r) \<Rightarrow> Inr r
                | Some _ \<Rightarrow> Inl (AttributeError ''_obj'')
                | None \<Rightarrow> Inl (RecursionError ''maximum recursion depth exceeded''))))"

text \<open>
  \<open>_WrapperBase.__unwrap__(self)\<close>:
  \<^verbatim>\<open>prototype = self._cls().__prototype__
  if hasattr(prototype, "__unwrap__"):
      return prototype.__unwrap__(self)
  return self._obj\<close>
\<close>

definition WrapperBase_unwrap :: "store \<Rightarrow> ref \<Rightarrow> exn + ref" where
  "WrapperBase_unwrap st self =
     (case class_of st self of
        None \<Rightarrow> Inl (AttributeError ''__prototype__'')
      | Some cls \<Rightarrow>
          (case data_attr st cls ''__prototype__'' of
             Inl e \<Rightarrow> Inl e
           | Inr prototype \<Rightarrow>
               if in_dir st prototype ''__unwrap__''
               then (case effective st ''__unwrap__'' (mro_of st prototype) of
                       Some (Returns r) \<Rightarrow> Inr r
                     | Some (Raises e) \<Rightarrow> Inl e
                     | Some (Method m) \<Rightarrow> Inl (RecursionError ''maximum recursion depth exceeded'')
                     | _ \<Rightarrow> Inl (TypeError ''__unwrap__ is not callable this way''))
               else get_obj st self))"

text \<open>
  \<open>hasattr(obj, "__unwrap__")\<close> for an object of the store: the attribute is one of the
  object itself when that is a class, along its MRO, or one of its type.
  \<open>obj.__unwrap__()\<close> is the call of the method of the type.
\<close>

definition has_unwrap :: "store \<Rightarrow> ref \<Rightarrow> bool" where
  "has_unwrap st obj =
     (in_dir st obj ''__unwrap__'' \<or>
      (case class_of st obj of Some c \<Rightarrow> in_dir st c ''__unwrap__'' | None \<Rightarrow> False))"

definition call_unwrap :: "store \<Rightarrow> ref \<Rightarrow> exn + ref" where
  "call_unwrap st obj =
     (case (case class_of st obj of Some c \<Rightarrow> effective st ''__unwrap__'' (mro_of st c) | None \<Rightarrow> None) of
        Some (Method m) \<Rightarrow>
          if m = ''_WrapperBase.__unwrap__'' then WrapperBase_unwrap st obj
          else Inl (TypeError ''__unwrap__ is not callable this way'')
      | Some (Returns r) \<Rightarrow> Inr r
      | Some (Raises e) \<Rightarrow> Inl e
      | _ \<Rightarrow> Inl (TypeError ''__unwrap__ is not callable this way''))"

text \<open>
  \<open>unwrap(obj)\<close>: \<^verbatim>\<open>while hasattr(obj, "__unwrap__"): obj = obj.__unwrap__()\<close>.  The loop
  need not end; \<open>None\<close> is the call that does not return.
\<close>

partial_function (option) unwrap :: "store \<Rightarrow> ref \<Rightarrow> (exn + ref) option" where
  "unwrap st obj =
     (if has_unwrap st obj
      then (case call_unwrap st obj of Inl e \<Rightarrow> Some (Inl e) | Inr obj' \<Rightarrow> unwrap st obj')
      else Some (Inr obj))"

declare unwrap.simps [code]

text \<open>
  A store with \<open>_WrapperBase\<close> (object 3), the classes \<open>A\<close> (4), \<open>Proto\<close> (5), \<open>B\<close> (6), a
  subclass of \<open>A\<close>, and \<open>U\<close> (7), and an instance of each of \<open>A\<close>, \<open>B\<close> and \<open>U\<close> (8, 9, 10).
\<close>

definition wrapper_objects :: "ref \<Rightarrow> pyobj" where
  "wrapper_objects r =
     (if r = 0 then builtin_class ''object'' else if r = 1 then builtin_class ''type''
      else if r = 2 then none_object else if r = 3 then class_object ''_WrapperBase''
      else if r = 4 then class_object ''A'' else if r = 5 then class_object ''Proto''
      else if r = 6 then class_object ''B'' else if r = 7 then class_object ''U''
      else if r = 8 then instance_object 4 else if r = 9 then instance_object 6
      else instance_object 7)"

definition wrapper_table :: "ref \<rightharpoonup> pyclass" where
  "wrapper_table =
     [0 \<mapsto> the_object_class, 1 \<mapsto> the_type_class, 3 \<mapsto> wrapper_base_class 3,
      4 \<mapsto> \<lparr> class_mro = [4, 0], class_dict = Map.empty \<rparr>,
      5 \<mapsto> \<lparr> class_mro = [5, 0], class_dict = Map.empty \<rparr>,
      6 \<mapsto> \<lparr> class_mro = [6, 4, 0], class_dict = Map.empty \<rparr>,
      7 \<mapsto> \<lparr> class_mro = [7, 0], class_dict = Map.empty \<rparr>]"

definition wrapper_store :: store where
  "wrapper_store = \<lparr> objects = wrapper_objects, classes = wrapper_table,
                      wrapped_obj = Map.empty, next_ref = 11 \<rparr>"


text \<open>
  What the result about wrappers assumes of a store: \<open>object\<close> and \<open>type\<close> are the
  builtin classes,
  and every class is an object of the store whose MRO starts with the class and
  holds classes of the store.
  \<open>returns_normally\<close>: the method found is \<open>object.__init__\<close> or a function that
  returns.
\<close>

definition well_formed :: "store \<Rightarrow> bool" where
  "well_formed st =
     (classes st object_ref = Some the_object_class \<and>
      classes st type_ref = Some the_type_class \<and>
      (\<forall>c \<in> dom (classes st). c < next_ref st \<and> hd (mro_of st c) = c \<and>
          mro_of st c \<noteq> [] \<and> set (mro_of st c) \<subseteq> dom (classes st)))"

definition returns_normally :: "attr option \<Rightarrow> bool" where
  "returns_normally a = (case a of Some ObjectInit \<Rightarrow> True | Some (Returns r) \<Rightarrow> True | _ \<Rightarrow> False)"

section \<open>Results\<close>

lemma csv_cells_source_eq_spec:
  "[strip it. it \<leftarrow> split_on (\<lambda>c. c = CHR '','' \<or> c = CHR '';'') line, strip it \<noteq> []]
     = csv_cells_spec line"
proof -
  have sep: "(\<lambda>c. c = CHR '','' \<or> c = CHR '';'') = (\<lambda>c. c \<in> {CHR '','', CHR '';''})"
    by auto
  have "[strip it. it \<leftarrow> xs, strip it \<noteq> []] = filter (\<lambda>cell. cell \<noteq> []) (map strip xs)"
    for xs :: "string list"
    by (induction xs) auto
  then show ?thesis
    unfolding csv_cells_spec_def sep by simp
qed

lemma csv_source_eq_spec: "CsvInterface_as_python_object text = csv_parse_spec text"
proof -
  have "[f line. line \<leftarrow> xs, strip line \<noteq> []] = map f (filter (\<lambda>line. strip line \<noteq> []) xs)"
    for xs :: "string list" and f :: "string \<Rightarrow> string list"
    by (induction xs) auto
  then show ?thesis
    unfolding CsvInterface_as_python_object_def csv_parse_spec_def csv_lines_spec_def
    by (simp add: csv_cells_source_eq_spec)
qed

text \<open>
  C5.  Importing a \<open>.csv\<close> file through the installed interface (default storage
  field) binds the module's \<open>content\<close> attribute to the parse of the file text, which
  is, for each line whose stripped text is non-empty, the list of stripped cells of
  the line split on \<open>,\<close> or \<open>;\<close>, empty cells dropped; the other attributes of the
  module are left as they were.
\<close>

theorem csv_import_binds_content:
  "fs path = Some text \<Longrightarrow>
   exec_module CsvInterface_as_python_object (ExtraInterface_install None path) fs module_dict
     = Inr (module_dict(''content'' \<mapsto> csv_parse_spec text))"
  by (simp add: exec_module_def ExtraInterface_install_def ExtraInterface_storage_field_name_def
      csv_source_eq_spec)

subsection \<open>What the matcher accepts\<close>

lemma mem_lit_run:
  "st' \<in> set (lit_run l (n, s, g)) \<longleftrightarrow> (\<exists>s'. s = l @ s' \<and> st' = (n + length l, s', g))"
proof (induction l arbitrary: n s)
  case Nil
  then show ?case by auto
next
  case (Cons a l)
  then show ?case by (cases s) auto
qed

lemma mem_many_run:
  "st' \<in> set (many_run p (n, s, g)) \<longleftrightarrow>
     (\<exists>w s'. s = w @ s' \<and> list_all p w \<and> st' = (n + length w, s', g))"
proof (induction s arbitrary: n)
  case Nil
  then show ?case by auto
next
  case (Cons c cs)
  show ?case
  proof
    assume "st' \<in> set (many_run p (n, c # cs, g))"
    then consider "p c" "st' \<in> set (many_run p (Suc n, cs, g))" | "st' = (n, c # cs, g)"
      by (auto split: if_splits)
    then show "\<exists>w s'. c # cs = w @ s' \<and> list_all p w \<and> st' = (n + length w, s', g)"
    proof cases
      case 1
      then obtain w s' where "cs = w @ s'" "list_all p w" "st' = (Suc n + length w, s', g)"
        using Cons.IH by blast
      then have "c # cs = (c # w) @ s' \<and> list_all p (c # w) \<and> st' = (n + length (c # w), s', g)"
        using 1 by simp
      then show ?thesis by blast
    next
      case 2
      then have "c # cs = [] @ (c # cs) \<and> list_all p [] \<and> st' = (n + length ([]::string), c # cs, g)"
        by simp
      then show ?thesis by blast
    qed
  next
    assume "\<exists>w s'. c # cs = w @ s' \<and> list_all p w \<and> st' = (n + length w, s', g)"
    then obtain w s' where w: "c # cs = w @ s'" "list_all p w" "st' = (n + length w, s', g)"
      by blast
    show "st' \<in> set (many_run p (n, c # cs, g))"
    proof (cases w)
      case Nil
      then have "st' = (n, c # cs, g)" using w by simp
      then show ?thesis by simp
    next
      case (Cons d ds)
      then have "cs = ds @ s'" "list_all p ds" "st' = (Suc n + length ds, s', g)" "p c"
        using w by auto
      then show ?thesis using Cons.IH[of "Suc n"] by auto
    qed
  qed
qed

lemma mem_Seq:
  "st' \<in> set (rx_run (Seq a b) st) \<longleftrightarrow> (\<exists>st1 \<in> set (rx_run a st). st' \<in> set (rx_run b st1))"
  by auto

lemma mem_Opt: "st' \<in> set (rx_run (Opt a) st) \<longleftrightarrow> st' \<in> set (rx_run a st) \<or> st' = st"
  by auto

lemma mem_Cls:
  "st' \<in> set (rx_run (Cls p) (n, s, g)) \<longleftrightarrow> (\<exists>c s'. s = c # s' \<and> p c \<and> st' = (Suc n, s', g))"
  by (auto split: list.splits)

lemma mem_Grp:
  "st' \<in> set (rx_run (Grp name a) (n, s, g)) \<longleftrightarrow>
     (\<exists>n' s' g'. (n', s', g') \<in> set (rx_run a (n, s, g)) \<and> st' = (n', s', (name, take (n' - n) s) # g'))"
  by force

lemma mem_identifier:
  "st' \<in> set (rx_run identifier_rx (n, s, g)) \<longleftrightarrow>
     (\<exists>w s'. s = w @ s' \<and> is_identifier w \<and> st' = (n + length w, s', g))"
proof
  assume "st' \<in> set (rx_run identifier_rx (n, s, g))"
  then obtain c cs where s: "s = c # cs" "is_word c \<or> c = CHR ''_''"
    and m: "st' \<in> set (many_run ident_char (Suc n, cs, g))"
    by (auto simp: identifier_rx_def ident_char_def[abs_def] split: list.splits if_splits)
  from m obtain w s' where "cs = w @ s'" "list_all ident_char w" "st' = (Suc n + length w, s', g)"
    unfolding mem_many_run by blast
  then have "s = (c # w) @ s' \<and> is_identifier (c # w) \<and> st' = (n + length (c # w), s', g)"
    using s by (simp add: is_identifier_def)
  then show "\<exists>w s'. s = w @ s' \<and> is_identifier w \<and> st' = (n + length w, s', g)" by blast
next
  assume "\<exists>w s'. s = w @ s' \<and> is_identifier w \<and> st' = (n + length w, s', g)"
  then obtain w s' where w: "s = w @ s'" "is_identifier w" "st' = (n + length w, s', g)" by blast
  then obtain c cs where c: "w = c # cs" "is_word c \<or> c = CHR ''_''" "list_all ident_char cs"
    by (auto simp: is_identifier_def split: list.splits)
  then have "st' \<in> set (many_run ident_char (Suc n, cs @ s', g))"
    unfolding mem_many_run using w by auto
  then show "st' \<in> set (rx_run identifier_rx (n, s, g))"
    using w c by (auto simp: identifier_rx_def ident_char_def[abs_def])
qed

lemma mem_plain:
  "plain r \<Longrightarrow> st' \<in> set (rx_run r (n, s, g)) \<longleftrightarrow>
     (\<exists>w s'. s = w @ s' \<and> rx_words r w \<and> st' = (n + length w, s', g))"
proof (induction r arbitrary: n s g st')
  case Eps
  then show ?case by auto
next
  case (Lit l)
  then show ?case by (auto simp: mem_lit_run)
next
  case (Cls p)
  then show ?case unfolding mem_Cls by auto
next
  case (Many p)
  then show ?case by (simp add: mem_many_run)
next
  case (Seq a b)
  then have pa: "plain a" and pb: "plain b" by simp_all
  show ?case
  proof
    assume "st' \<in> set (rx_run (Seq a b) (n, s, g))"
    then obtain st1 where 1: "st1 \<in> set (rx_run a (n, s, g))" and 2: "st' \<in> set (rx_run b st1)"
      unfolding mem_Seq by blast
    from 1 obtain u s1 where u: "s = u @ s1" "rx_words a u" "st1 = (n + length u, s1, g)"
      using Seq.IH(1)[OF pa] by blast
    from 2 u obtain v s' where v: "s1 = v @ s'" "rx_words b v" "st' = (n + length u + length v, s', g)"
      using Seq.IH(2)[OF pb] by blast
    have "s = (u @ v) @ s' \<and> rx_words (Seq a b) (u @ v) \<and> st' = (n + length (u @ v), s', g)"
      using u v by auto
    then show "\<exists>w s'. s = w @ s' \<and> rx_words (Seq a b) w \<and> st' = (n + length w, s', g)"
      by blast
  next
    assume "\<exists>w s'. s = w @ s' \<and> rx_words (Seq a b) w \<and> st' = (n + length w, s', g)"
    then obtain u v s' where w: "s = (u @ v) @ s'" "rx_words a u" "rx_words b v"
        "st' = (n + length (u @ v), s', g)"
      by auto
    have 1: "(n + length u, v @ s', g) \<in> set (rx_run a (n, s, g))"
      using Seq.IH(1)[OF pa] w by auto
    have 2: "st' \<in> set (rx_run b (n + length u, v @ s', g))"
      using Seq.IH(2)[OF pb] w by auto
    show "st' \<in> set (rx_run (Seq a b) (n, s, g))"
      unfolding mem_Seq using 1 2 by blast
  qed
next
  case (Opt a)
  then have pa: "plain a" by simp
  show ?case unfolding mem_Opt using Opt.IH[OF pa] by auto
next
  case (Grp name a)
  then show ?case by simp
next
  case Bol
  then show ?case by simp
next
  case Eol
  then show ?case by simp
qed

lemma words_Cls_Seq:
  "rx_words (Seq (Cls p) b) w \<longleftrightarrow> (case w of [] \<Rightarrow> False | c # cs \<Rightarrow> p c \<and> rx_words b cs)"
proof (cases w)
  case Nil
  then show ?thesis by simp
next
  case (Cons c cs)
  have "rx_words (Seq (Cls p) b) (c # cs) \<longleftrightarrow> p c \<and> rx_words b cs"
  proof
    assume "rx_words (Seq (Cls p) b) (c # cs)"
    then obtain d v where "c # cs = [d] @ v" "p d" "rx_words b v" by auto
    then show "p c \<and> rx_words b cs" by simp
  next
    assume "p c \<and> rx_words b cs"
    then have "c # cs = [c] @ cs \<and> rx_words (Cls p) [c] \<and> rx_words b cs" by simp
    then show "rx_words (Seq (Cls p) b) (c # cs)" unfolding rx_words.simps(5) by blast
  qed
  then show ?thesis using Cons by simp
qed

lemma words_identifier: "rx_words identifier_rx w \<longleftrightarrow> is_identifier w"
  unfolding identifier_rx_def words_Cls_Seq is_identifier_def
  by (simp add: ident_char_def[abs_def] split: list.splits)

lemma words_ws: "rx_words ws_rx w \<longleftrightarrow> list_all is_space w"
  by (simp add: ws_rx_def)

lemma words_annotation:
  "rx_words (Seq (Lit '':'') (Seq ws_rx (Seq identifier_rx ws_rx))) w \<longleftrightarrow> is_annotation w"
  unfolding is_annotation_def rx_words.simps words_identifier words_ws
  by (metis append.assoc)

lemma mem_Eol:
  "st' \<in> set (rx_run Eol (n, s, g)) \<longleftrightarrow> (s = [] \<or> s = [CHR 0x0A]) \<and> st' = (n, s, g)"
  by auto

lemma mem_expression_tail:
  "(\<exists>st'. st' \<in> set (rx_run (Seq (Many dot) Eol) (n, s, g))) \<longleftrightarrow> is_expression s"
proof
  assume "\<exists>st'. st' \<in> set (rx_run (Seq (Many dot) Eol) (n, s, g))"
  then obtain st' st1 where 1: "st1 \<in> set (rx_run (Many dot) (n, s, g))"
    and 2: "st' \<in> set (rx_run Eol st1)"
    unfolding mem_Seq by blast
  from 1 obtain w s' where w: "s = w @ s'" "list_all dot w" "st1 = (n + length w, s', g)"
    by (auto simp: mem_many_run)
  from 2 w have "s' = [] \<or> s' = [CHR 0x0A]" by (auto split: if_splits)
  then show "is_expression s" using w by (auto simp: is_expression_def)
next
  assume "is_expression s"
  then consider "list_all dot s" | e' where "s = e' @ [CHR 0x0A]" "list_all dot e'"
    by (auto simp: is_expression_def)
  then show "\<exists>st'. st' \<in> set (rx_run (Seq (Many dot) Eol) (n, s, g))"
  proof cases
    case 1
    then have "(n + length s, [], g) \<in> set (rx_run (Many dot) (n, s, g))"
      by (simp add: mem_many_run)
    moreover have "(n + length s, [], g) \<in> set (rx_run Eol (n + length s, [], g))" by simp
    ultimately show ?thesis unfolding mem_Seq by blast
  next
    case 2
    then have "(n + length e', [CHR 0x0A], g) \<in> set (rx_run (Many dot) (n, s, g))"
      by (simp add: mem_many_run)
    moreover have "(n + length e', [CHR 0x0A], g) \<in> set (rx_run Eol (n + length e', [CHR 0x0A], g))"
      by simp
    ultimately show ?thesis unfolding mem_Seq by blast
  qed
qed

lemma plain_parts:
  "plain (Opt (Lit ''get_''))" "plain ws_rx" "plain annotation_rx" "plain (Lit ''='')"
  by (simp_all add: ws_rx_def annotation_rx_def identifier_rx_def)

lemma words_annotation_rx: "rx_words annotation_rx w \<longleftrightarrow> is_annotation w \<or> w = []"
  unfolding annotation_rx_def rx_words.simps(6) words_annotation ..

lemma getter_regex_unfold:
  "getter_regex = Seq Bol (Seq (Opt (Lit ''get_'')) (Seq (Grp ''name'' identifier_rx) (Seq ws_rx
       (Seq annotation_rx (Seq (Lit ''='') (Seq (Many dot) Eol))))))"
  by (simp add: getter_regex_def make_regex_def annotation_rx_def)

lemma getter_regex_sound:
  assumes "(n', s', m) \<in> set (rx_run getter_regex (0, stmt, []))"
  shows "\<exists>name. m = [(''name'', name)] \<and> getter_statement stmt name"
proof -
  from assms obtain st1 st2 st3 st4 st5 st6 where
    1: "st1 \<in> set (rx_run Bol (0, stmt, []))" and
    2: "st2 \<in> set (rx_run (Opt (Lit ''get_'')) st1)" and
    3: "st3 \<in> set (rx_run (Grp ''name'' identifier_rx) st2)" and
    4: "st4 \<in> set (rx_run ws_rx st3)" and
    5: "st5 \<in> set (rx_run annotation_rx st4)" and
    6: "st6 \<in> set (rx_run (Lit ''='') st5)" and
    7: "(n', s', m) \<in> set (rx_run (Seq (Many dot) Eol) st6)"
    unfolding getter_regex_unfold mem_Seq by blast
  from 1 have st1: "st1 = (0, stmt, [])" by simp
  from 2 st1 obtain pre s2 where pre: "stmt = pre @ s2" "rx_words (Opt (Lit ''get_'')) pre"
    "st2 = (0 + length pre, s2, [])"
    using mem_plain[OF plain_parts(1)] by blast
  from 3 pre obtain n3 s3 g3 where
    id: "(n3, s3, g3) \<in> set (rx_run identifier_rx (length pre, s2, []))" and
    st3: "st3 = (n3, s3, (''name'', take (n3 - length pre) s2) # g3)"
    unfolding mem_Grp by auto
  from id obtain name where name: "s2 = name @ s3" "is_identifier name"
    "n3 = length pre + length name" "g3 = []"
    unfolding mem_identifier by auto
  have st3': "st3 = (n3, s3, [(''name'', name)])" using st3 name by simp
  from 4 st3' obtain ws s4 where ws: "s3 = ws @ s4" "rx_words ws_rx ws"
    "st4 = (n3 + length ws, s4, [(''name'', name)])"
    using mem_plain[OF plain_parts(2)] by blast
  from 5 ws obtain ann s5 where ann: "s4 = ann @ s5" "rx_words annotation_rx ann"
    "st5 = (n3 + length ws + length ann, s5, [(''name'', name)])"
    using mem_plain[OF plain_parts(3)] by blast
  from 6 ann obtain eq s6 where eq: "s5 = eq @ s6" "rx_words (Lit ''='') eq"
    "st6 = (n3 + length ws + length ann + length eq, s6, [(''name'', name)])"
    using mem_plain[OF plain_parts(4)] by blast
  from 7 eq have expr: "is_expression s6"
    using mem_expression_tail by blast
  from 7 eq have m: "m = [(''name'', name)]"
    unfolding mem_Seq by (auto simp: mem_many_run split: if_splits)
  have "stmt = pre @ name @ ws @ ann @ ''='' @ s6"
    using pre name ws ann eq by simp
  moreover have "pre = [] \<or> pre = ''get_''" using pre(2) by auto
  moreover have "list_all is_space ws" using ws(2) by (simp add: words_ws)
  moreover have "ann = [] \<or> is_annotation ann" using ann(2) by (auto simp: words_annotation_rx)
  ultimately have "getter_statement stmt name"
    unfolding getter_statement_def using name(2) expr by blast
  then show ?thesis using m by blast
qed

lemma SeqI:
  "st1 \<in> set (rx_run a st) \<Longrightarrow> st' \<in> set (rx_run b st1) \<Longrightarrow> st' \<in> set (rx_run (Seq a b) st)"
  unfolding mem_Seq by blast

lemma getter_regex_complete:
  assumes "getter_statement stmt name"
  shows "\<exists>st'. st' \<in> set (rx_run getter_regex (0, stmt, []))"
proof -
  from assms obtain pre ws ann expr where f: "stmt = pre @ name @ ws @ ann @ ''='' @ expr"
    "pre = [] \<or> pre = ''get_''" "is_identifier name" "list_all is_space ws"
    "ann = [] \<or> is_annotation ann" "is_expression expr"
    unfolding getter_statement_def by blast
  let ?g = "[(''name'', name)]"
  have 1: "(0, stmt, []) \<in> set (rx_run Bol (0, stmt, []))" by simp
  have 2: "(0 + length pre, name @ ws @ ann @ ''='' @ expr, []) \<in> set (rx_run (Opt (Lit ''get_'')) (0, stmt, []))"
    unfolding mem_plain[OF plain_parts(1)] using f(1,2) by auto
  have "(length pre + length name, ws @ ann @ ''='' @ expr, [])
      \<in> set (rx_run identifier_rx (length pre, name @ ws @ ann @ ''='' @ expr, []))"
    unfolding mem_identifier using f(3) by blast
  then have 3: "(length pre + length name, ws @ ann @ ''='' @ expr, ?g)
      \<in> set (rx_run (Grp ''name'' identifier_rx) (0 + length pre, name @ ws @ ann @ ''='' @ expr, []))"
    unfolding mem_Grp by force
  have 4: "(length pre + length name + length ws, ann @ ''='' @ expr, ?g)
      \<in> set (rx_run ws_rx (length pre + length name, ws @ ann @ ''='' @ expr, ?g))"
    unfolding mem_plain[OF plain_parts(2)] using f(4) by (auto simp: words_ws)
  have 5: "(length pre + length name + length ws + length ann, ''='' @ expr, ?g)
      \<in> set (rx_run annotation_rx (length pre + length name + length ws, ann @ ''='' @ expr, ?g))"
    unfolding mem_plain[OF plain_parts(3)] using f(5) by (auto simp: words_annotation_rx)
  have 6: "(length pre + length name + length ws + length ann + length ''='', expr, ?g)
      \<in> set (rx_run (Lit ''='') (length pre + length name + length ws + length ann, ''='' @ expr, ?g))"
    unfolding mem_plain[OF plain_parts(4)] by auto
  obtain st' where 7: "st' \<in> set (rx_run (Seq (Many dot) Eol)
       (length pre + length name + length ws + length ann + length ''='', expr, ?g))"
    using f(6) mem_expression_tail by blast
  note 7
  from SeqI[OF 6 this] have "st' \<in> set (rx_run (Seq (Lit ''='') (Seq (Many dot) Eol))
      (length pre + length name + length ws + length ann, ''='' @ expr, ?g))" .
  from SeqI[OF 5 this] have "st' \<in> set (rx_run (Seq annotation_rx (Seq (Lit ''='') (Seq (Many dot) Eol)))
      (length pre + length name + length ws, ann @ ''='' @ expr, ?g))" .
  from SeqI[OF 4 this] have "st' \<in> set (rx_run (Seq ws_rx (Seq annotation_rx (Seq (Lit ''='')
      (Seq (Many dot) Eol)))) (length pre + length name, ws @ ann @ ''='' @ expr, ?g))" .
  from SeqI[OF 3 this] have "st' \<in> set (rx_run (Seq (Grp ''name'' identifier_rx) (Seq ws_rx
      (Seq annotation_rx (Seq (Lit ''='') (Seq (Many dot) Eol)))))
      (0 + length pre, name @ ws @ ann @ ''='' @ expr, []))" .
  from SeqI[OF 2 this] have "st' \<in> set (rx_run (Seq (Opt (Lit ''get_'')) (Seq (Grp ''name'' identifier_rx)
      (Seq ws_rx (Seq annotation_rx (Seq (Lit ''='') (Seq (Many dot) Eol)))))) (0, stmt, []))" .
  from SeqI[OF 1 this] have "st' \<in> set (rx_run getter_regex (0, stmt, []))"
    unfolding getter_regex_unfold .
  then show ?thesis ..
qed

lemma re_match_None: "re_match r s = None \<longleftrightarrow> rx_run r (0, s, []) = []"
  by (auto simp: re_match_def split: list.splits)

lemma re_match_Some:
  "re_match r s = Some m \<Longrightarrow> \<exists>n' s'. (n', s', m) \<in> set (rx_run r (0, s, []))"
  by (auto simp: re_match_def split: list.splits)

lemma getter_regex_match:
  "(\<exists>name. re_match getter_regex stmt = Some [(''name'', name)] \<and> getter_statement stmt name)
   \<or> (re_match getter_regex stmt = None \<and> (\<forall>name. \<not> getter_statement stmt name))"
proof (cases "re_match getter_regex stmt")
  case None
  then have "rx_run getter_regex (0, stmt, []) = []" by (simp add: re_match_None)
  then have "\<forall>name. \<not> getter_statement stmt name"
    using getter_regex_complete by fastforce
  then show ?thesis using None by simp
next
  case (Some m)
  then show ?thesis using re_match_Some getter_regex_sound by blast
qed

text \<open>
  C7.  Property synthesis parses the caller's assignment statement.  For every
  declaration statement (and every frame name and keyword arguments of the call
  \<open>getter(...)\<close>, which is made without \<open>do_not_assign\<close>): either the statement matches
  the assignation regex, it then is an identifier optionally prefixed by \<open>get_\<close>,
  optionally type-annotated, followed by \<open>=\<close> and an expression, and the name
  captured by the group \<open>name\<close> is passed to \<open>__build__\<close> over the caller's keywords;
  or it does not match, it then has not that form for any name, and the error
  handler raises a \<open>SyntaxError\<close>.
\<close>

theorem getter_call_parses_statement:
  "(\<exists>name. re_match getter_regex stmt = Some [(''name'', name)] \<and> getter_statement stmt name \<and>
       AssignableFactoryMeta_call getter kwargs False frame_name stmt
         = getter_build (dict_union kwargs [(''name'', KwStr name)]))
   \<or> (re_match getter_regex stmt = None \<and> (\<forall>name. \<not> getter_statement stmt name) \<and>
       AssignableFactoryMeta_call getter kwargs False frame_name stmt
         = Inl (SyntaxError (''Expected a property name, eventually prefixed by 'get_', got ''
                  @ [CHR 0x27] @ stmt @ [CHR 0x27])))"
proof -
  from getter_regex_match[of stmt] show ?thesis
  proof
    assume "\<exists>name. re_match getter_regex stmt = Some [(''name'', name)] \<and> getter_statement stmt name"
    then obtain name where n: "re_match getter_regex stmt = Some [(''name'', name)]"
      "getter_statement stmt name" by blast
    then have "AssignableFactoryMeta_call getter kwargs False frame_name stmt
         = getter_build (dict_union kwargs [(''name'', KwStr name)])"
      by (simp add: AssignableFactoryMeta_call_def parse_declaration_statement_def getter_def
          group_value_def group_def)
    then show ?thesis using n by blast
  next
    assume n: "re_match getter_regex stmt = None \<and> (\<forall>name. \<not> getter_statement stmt name)"
    then have "AssignableFactoryMeta_call getter kwargs False frame_name stmt
         = Inl (SyntaxError (''Expected a property name, eventually prefixed by 'get_', got ''
                  @ [CHR 0x27] @ stmt @ [CHR 0x27]))"
      by (simp add: AssignableFactoryMeta_call_def parse_declaration_statement_def getter_def
          getter_error_handler_def)
    then show ?thesis using n by blast
  qed
qed

theorem getter_call_parses_statement_witness:
  "AssignableFactoryMeta_call getter [] False ''Foo'' ''get_bar = getter()''
     = Inr \<lparr> reads_attribute = ''_bar'', function_name = ''<bar getter>'' \<rparr>
   \<and> getter_statement ''get_bar = getter()'' ''bar''
   \<and> (\<forall>name. \<not> getter_statement ''self.bar = getter()'' name)
   \<and> AssignableFactoryMeta_call getter [] False ''Foo'' ''self.bar = getter()''
     = Inl (SyntaxError (''Expected a property name, eventually prefixed by 'get_', got ''
              @ [CHR 0x27] @ ''self.bar = getter()'' @ [CHR 0x27]))"
proof -
  have m1: "re_match getter_regex ''get_bar = getter()'' = Some [(''name'', ''bar'')]"
    by code_simp
  have m2: "re_match getter_regex ''self.bar = getter()'' = None"
    by code_simp
  have b: "getter_build (dict_union [] [(''name'', KwStr ''bar'')])
     = Inr \<lparr> reads_attribute = ''_bar'', function_name = ''<bar getter>'' \<rparr>"
    by (simp add: getter_build_def dict_union_def removeprefix_def)
  from getter_call_parses_statement[of "''get_bar = getter()''" "[]" "''Foo''"] m1
  have 1: "getter_statement ''get_bar = getter()'' ''bar'' \<and>
       AssignableFactoryMeta_call getter [] False ''Foo'' ''get_bar = getter()''
         = getter_build (dict_union [] [(''name'', KwStr ''bar'')])"
    by auto
  from getter_call_parses_statement[of "''self.bar = getter()''" "[]" "''Foo''"] m2
  have 2: "(\<forall>name. \<not> getter_statement ''self.bar = getter()'' name) \<and>
       AssignableFactoryMeta_call getter [] False ''Foo'' ''self.bar = getter()''
         = Inl (SyntaxError (''Expected a property name, eventually prefixed by 'get_', got ''
                  @ [CHR 0x27] @ ''self.bar = getter()'' @ [CHR 0x27]))"
    by auto
  show ?thesis using 1 2 b by simp
qed

theorem csv_import_binds_content_witness:
  "exec_module CsvInterface_as_python_object (ExtraInterface_install None ''data.csv'')
     [''data.csv'' \<mapsto> ''a, b;c\<newline>\<newline> d ,,e \<newline>''] Map.empty
     = Inr [''content'' \<mapsto> [[''a'', ''b'', ''c''], [''d'', ''e'']]]"
proof -
  have p: "csv_parse_spec ''a, b;c\<newline>\<newline> d ,,e \<newline>'' = [[''a'', ''b'', ''c''], [''d'', ''e'']]"
    by code_simp
  have f: "[''data.csv'' \<mapsto> ''a, b;c\<newline>\<newline> d ,,e \<newline>''] ''data.csv''
             = Some ''a, b;c\<newline>\<newline> d ,,e \<newline>''"
    by simp
  show ?thesis
    using csv_import_binds_content[of "[''data.csv'' \<mapsto> ''a, b;c\<newline>\<newline> d ,,e \<newline>'']"
        "''data.csv''" "''a, b;c\<newline>\<newline> d ,,e \<newline>''" "Map.empty"] f p
    by simp
qed

subsection \<open>Tagged fields\<close>

lemma many_run_takeWhile:
  "\<exists>rest. many_run p (n, t, g) = (n + length (takeWhile p t), dropWhile p t, g) # rest"
proof (induction t arbitrary: n)
  case Nil
  then show ?case by simp
next
  case (Cons c cs)
  show ?case
  proof (cases "p c")
    case True
    obtain rest where "many_run p (Suc n, cs, g) = (Suc n + length (takeWhile p cs), dropWhile p cs, g) # rest"
      using Cons.IH by blast
    then show ?thesis using True by simp
  next
    case False
    then show ?thesis by simp
  qed
qed

lemma cast_regex_int:
  "re_match cast_regex (''<int>'' @ t) = Some [(''raw_data'', takeWhile dot t), (''data_type'', ''int'')]"
proof -
  obtain rest where r: "many_run dot (5, t, [(''data_type'', ''int'')])
      = (5 + length (takeWhile dot t), dropWhile dot t, [(''data_type'', ''int'')]) # rest"
    using many_run_takeWhile by blast
  have pre: "rx_run (Opt (Seq (Lit ''<'') (Seq (Grp ''data_type'' identifier_rx) (Lit ''>''))))
          (0, ''<int>'' @ t, [])
        = [(5, t, [(''data_type'', ''int'')]), (0, ''<int>'' @ t, [])]"
    by (simp add: identifier_rx_def is_word_def is_digit_def)
  show ?thesis
    unfolding re_match_def cast_regex_def rx_run.simps(5) pre
    by (simp add: r takeWhile_eq_take[symmetric])
qed

lemma cast_regex_bool:
  "re_match cast_regex (''<bool>'' @ t) = Some [(''raw_data'', takeWhile dot t), (''data_type'', ''bool'')]"
proof -
  obtain rest where r: "many_run dot (6, t, [(''data_type'', ''bool'')])
      = (6 + length (takeWhile dot t), dropWhile dot t, [(''data_type'', ''bool'')]) # rest"
    using many_run_takeWhile by blast
  have pre: "rx_run (Opt (Seq (Lit ''<'') (Seq (Grp ''data_type'' identifier_rx) (Lit ''>''))))
          (0, ''<bool>'' @ t, [])
        = [(6, t, [(''data_type'', ''bool'')]), (0, ''<bool>'' @ t, [])]"
    by (simp add: identifier_rx_def is_word_def is_digit_def)
  show ?thesis
    unfolding re_match_def cast_regex_def rx_run.simps(5) pre
    by (simp add: r takeWhile_eq_take[symmetric])
qed

lemma digit_char_props:
  assumes "d < 10"
  shows "is_digit (digit_char d)" "digit_val (digit_char d) = d"
  using assms by (simp_all add: is_digit_def digit_val_def digit_char_def)

lemma is_digit_props:
  assumes "is_digit c"
  shows "\<not> is_space c" "dot c" "c \<noteq> CHR ''-''" "c \<noteq> CHR ''+''"
  using assms by (auto simp: is_digit_def is_space_def dot_def Let_def)

lemma digits_is_digit: "list_all is_digit (digits n)"
proof (induction n rule: digits.induct)
  case (1 n)
  show ?case
  proof (cases "n < 10")
    case True
    then show ?thesis by (subst digits.simps) (simp add: digit_char_props)
  next
    case False
    then have "list_all is_digit (digits (n div 10))" using 1 by simp
    moreover have "n mod 10 < 10" by simp
    ultimately show ?thesis using False by (subst digits.simps) (simp add: digit_char_props)
  qed
qed

lemma digits_nonempty: "digits n \<noteq> []"
  by (subst digits.simps) simp

lemma digits_tail_foldl:
  "list_all is_digit ds \<Longrightarrow> digits_tail acc ds = Some (foldl dec_step acc ds)"
  by (induction acc ds rule: digits_tail.induct) (auto simp: dec_step_def)

lemma foldl_digits: "foldl dec_step 0 (digits n) = n"
proof (induction n rule: digits.induct)
  case (1 n)
  show ?case
  proof (cases "n < 10")
    case True
    then show ?thesis by (subst digits.simps) (simp add: dec_step_def digit_char_props)
  next
    case False
    then have "foldl dec_step 0 (digits (n div 10)) = n div 10" using 1 by simp
    then show ?thesis using False
      by (subst digits.simps) (simp add: dec_step_def digit_char_props)
  qed
qed

lemma parse_decimal_digits: "parse_decimal (digits n) = Some n"
proof -
  obtain c cs where cs: "digits n = c # cs" using digits_nonempty by (cases "digits n") auto
  then have d: "is_digit c" "list_all is_digit cs" using digits_is_digit[of n] by auto
  have "foldl dec_step (digit_val c) cs = foldl dec_step 0 (c # cs)" by (simp add: dec_step_def)
  then have "digits_tail (digit_val c) cs = Some n"
    using d cs foldl_digits[of n] by (simp add: digits_tail_foldl)
  then show ?thesis using cs d by (simp add: parse_decimal_def)
qed

lemma is_int_space_is_space: "is_int_space c \<Longrightarrow> is_space c"
  by (auto simp: is_int_space_def is_space_def Let_def)

lemma int_strip_id:
  assumes "s \<noteq> []" "\<not> is_space (hd s)" "\<not> is_space (last s)"
  shows "int_strip s = s"
proof -
  have h: "\<not> is_int_space (hd s)" "\<not> is_int_space (last s)"
    using assms is_int_space_is_space by blast+
  have 1: "dropWhile is_int_space s = s" using assms(1) h by (simp add: dropWhile_eq_self_iff)
  have "hd (rev s) = last s" using assms by (simp add: hd_rev)
  then have 2: "dropWhile is_int_space (rev s) = rev s"
    using assms(1) h by (simp add: dropWhile_eq_self_iff)
  show ?thesis by (simp add: int_strip_def 1 2)
qed

lemma digits_ends:
  "is_digit (hd (digits n))" "is_digit (last (digits n))"
  using digits_is_digit[of n] digits_nonempty[of n]
  by (auto simp: list_all_iff)

lemma takeWhile_dot_digits: "takeWhile dot (sign @ digits n) = sign @ digits n"
  if "list_all dot sign"
proof -
  have "list_all dot (digits n)"
    using digits_is_digit[of n] is_digit_props(2) by (auto simp: list_all_iff)
  then have "list_all dot (sign @ digits n)" using that by simp
  then show ?thesis by (simp add: list_all_iff)
qed

lemma filter_digits: "filter is_digit (digits n) = digits n"
  using digits_is_digit[of n] by (simp add: list_all_iff)

lemma int_of_str_digits:
  assumes "\<not> (0 < L \<and> L < length (digits n))"
  shows "int_of_str L (digits n) = Inr (PInt (int n))"
proof -
  obtain c cs where cs: "digits n = c # cs" using digits_nonempty by (cases "digits n") auto
  then have c: "is_digit c" using digits_ends(1)[of n] by simp
  have st: "int_strip (digits n) = digits n"
    using digits_ends[of n] digits_nonempty is_digit_props(1) by (intro int_strip_id) auto
  have neg: "(case digits n of c # _ \<Rightarrow> c = CHR ''-'' | [] \<Rightarrow> False) = False"
    using cs c is_digit_props by auto
  have body: "(case digits n of c # cs \<Rightarrow> if c = CHR ''-'' \<or> c = CHR ''+'' then cs else digits n
                     | [] \<Rightarrow> digits n) = digits n"
    using cs c is_digit_props by auto
  show ?thesis
    unfolding int_of_str_def Let_def st neg body parse_decimal_digits filter_digits
    using assms by simp
qed

lemma int_of_str_neg_digits:
  assumes "\<not> (0 < L \<and> L < length (digits n))"
  shows "int_of_str L (CHR ''-'' # digits n) = Inr (PInt (- int n))"
proof -
  have "\<not> is_space (CHR ''-'')" by (simp add: is_space_def)
  moreover have "\<not> is_space (last (CHR ''-'' # digits n))"
    using digits_ends(2)[of n] digits_nonempty is_digit_props(1) by simp
  ultimately have st: "int_strip (CHR ''-'' # digits n) = CHR ''-'' # digits n"
    by (intro int_strip_id) simp_all
  show ?thesis
    unfolding int_of_str_def Let_def st
    using assms by (simp add: parse_decimal_digits filter_digits)
qed

lemma int_of_str_str_int:
  assumes "str_int L i = Inr text"
  shows "int_of_str L text = Inr (PInt i)"
proof -
  let ?ds = "digits (nat \<bar>i\<bar>)"
  from assms have lim: "\<not> (0 < L \<and> L < length ?ds)"
    and tx: "text = (if i < 0 then ''-'' else []) @ ?ds"
    by (auto simp: str_int_def Let_def split: if_splits)
  show ?thesis
  proof (cases "i < 0")
    case True
    then have "text = CHR ''-'' # ?ds" "- int (nat \<bar>i\<bar>) = i" using tx by simp_all
    then show ?thesis using int_of_str_neg_digits[OF lim] by simp
  next
    case False
    then have "text = ?ds" "int (nat \<bar>i\<bar>) = i" using tx by simp_all
    then show ?thesis using int_of_str_digits[OF lim] by simp
  qed
qed

lemma str_int_dot: "str_int L i = Inr text \<Longrightarrow> takeWhile dot text = text"
proof -
  assume "str_int L i = Inr text"
  then have "text = (if i < 0 then ''-'' else []) @ digits (nat \<bar>i\<bar>)"
    by (auto simp: str_int_def Let_def split: if_splits)
  moreover have "list_all dot (if i < 0 then ''-'' else [])" by (simp add: dot_def)
  ultimately show ?thesis using takeWhile_dot_digits by simp
qed

lemma str_int_within_limit:
  "L = 0 \<or> length (digits (nat \<bar>i\<bar>)) \<le> L \<Longrightarrow>
     str_int L i = Inr ((if i < 0 then ''-'' else []) @ digits (nat \<bar>i\<bar>))"
  by (auto simp: str_int_def Let_def)

text \<open>
  Values on which the cast of the decoder does invert the encoder: every integer \<open>i\<close>
  that the interpreter converts to a string (within the digit limit), and \<open>True\<close>, in
  a namespace where \<open>int\<close> and \<open>bool\<close> are the builtins.  The encoder stores the tagged
  string \<open>"<" + type(v).__name__ + ">" + str(v)\<close>, and the cast applied to it yields
  the value again.
\<close>

lemma json_tag_roundtrip_int_and_True:
  assumes "namespace ''int'' = Some (int_of_str max_str_digits)"
    and "namespace ''bool'' = Some bool_of_str"
    and "v = PBool True \<or>
         (\<exists>i. v = PInt i \<and> (max_str_digits = 0 \<or> length (digits (nat \<bar>i\<bar>)) \<le> max_str_digits))"
  shows "\<exists>text. py_str max_str_digits container_repr v = Inr text \<and>
     create_field max_str_digits container_repr self_fields field v
       = Inr (self_fields(field \<mapsto> PStr (''<'' @ type_name v @ ''>'' @ text))) \<and>
     cast_data namespace (''<'' @ type_name v @ ''>'' @ text) = Inr v"
  using assms(3)
proof
  assume v: "v = PBool True"
  have "cast_data namespace (''<bool>'' @ ''True'') = Inr (PBool True)"
    unfolding cast_data_def cast_regex_bool
    by (simp add: group_def assms(2) bool_of_str_def dot_def)
  then show ?thesis using v by (simp add: create_field_def)
next
  assume "\<exists>i. v = PInt i \<and> (max_str_digits = 0 \<or> length (digits (nat \<bar>i\<bar>)) \<le> max_str_digits)"
  then obtain i where v: "v = PInt i"
    and lim: "max_str_digits = 0 \<or> length (digits (nat \<bar>i\<bar>)) \<le> max_str_digits"
    by blast
  obtain s where s: "str_int max_str_digits i = Inr s"
    using str_int_within_limit[OF lim] by blast
  have "cast_data namespace (''<int>'' @ s) = Inr (PInt i)"
    unfolding cast_data_def cast_regex_int
    by (simp add: group_def assms(1) str_int_dot[OF s] int_of_str_str_int[OF s])
  then show ?thesis using v s by (simp add: create_field_def)
qed

text \<open>
  C3.  The decoder does not invert the encoder on the value \<open>False\<close>, which is neither
  a \<open>str\<close>, a \<open>list\<close> nor a \<open>dict\<close>: the encoder stores the tagged string
  \<open><bool>False\<close>, the cast of the decoder evaluates \<open>bool("False")\<close>, the truth value
  of a string that is not empty, and yields \<open>True\<close>, which is not equal to \<open>False\<close>.
\<close>

theorem json_tag_roundtrip_False_decodes_to_True:
  "create_field 4300 no_repr no_fields ''flag'' (PBool False)
     = Inr (no_fields(''flag'' \<mapsto> PStr ''<bool>False''))
   \<and> cast_data (io_builtins 4300) ''<bool>False'' = Inr (PBool True)
   \<and> cast_data (io_builtins 4300) ''<bool>False'' \<noteq> Inr (PBool False)"
proof -
  have "cast_data (io_builtins 4300) (''<bool>'' @ ''False'') = Inr (PBool True)"
    unfolding cast_data_def cast_regex_bool
    by (simp add: group_def io_builtins_def bool_of_str_def dot_def)
  then show ?thesis by (simp add: create_field_def)
qed

lemma json_tag_roundtrip_int_example:
  "create_field 4300 no_repr no_fields ''hp'' (PInt (- 120))
     = Inr (no_fields(''hp'' \<mapsto> PStr ''<int>-120''))
   \<and> cast_data (io_builtins 4300) ''<int>-120'' = Inr (PInt (- 120))"
proof -
  have d: "digits 120 = ''120''" by code_simp
  have 1: "io_builtins 4300 ''int'' = Some (int_of_str 4300)"
    and 2: "io_builtins 4300 ''bool'' = Some bool_of_str"
    by (simp_all add: io_builtins_def)
  have 3: "PInt (- 120) = PBool True \<or>
     (\<exists>i. PInt (- 120) = PInt i \<and> ((4300::nat) = 0 \<or> length (digits (nat \<bar>i\<bar>)) \<le> 4300))"
    by (simp add: d)
  have s: "py_str 4300 no_repr (PInt (- 120)) = Inr ''-120''"
    by (simp add: str_int_def d)
  from json_tag_roundtrip_int_and_True[OF 1 2 3, of no_repr no_fields "''hp''"] s
  show ?thesis by simp
qed

subsection \<open>Decorators and annotations\<close>

text \<open>
  C8.  Applying an annotation to any object returns that very object and leaves the
  store as it is, so nothing is added to the object's \<open>__decorators__\<close>; and when
  \<open>has_decorator(obj, a)\<close> was false before \<open>a(obj)\<close> it is false after.
\<close>

theorem annotation_returns_object_unchanged:
  "annotation_call a obj st = (Inr obj, st) \<and>
   (\<not> has_decorator st obj a \<longrightarrow> \<not> has_decorator (snd (annotation_call a obj st)) obj a)"
  by (simp add: annotation_call_def)



theorem annotation_returns_object_unchanged_witness:
  "annotation_call 1 2 example_store = (Inr 2, example_store) \<and>
   \<not> has_decorator example_store 2 1 \<and>
   \<not> has_decorator (snd (annotation_call 1 2 example_store)) 2 1"
proof -
  have h: "\<not> has_decorator example_store 2 1"
    by (simp add: has_decorator_def getattr_decorators_def search_path_def List.map_filter_simps
        example_store_def example_objects_def new_function_def)
  from annotation_returns_object_unchanged[of 1 2 example_store] h show ?thesis by simp
qed



lemma wrapper_calls_after_first:
  "called s \<Longrightarrow>
   wrapper_calls name func as s
     = (map (\<lambda>a. Inl (NameError (''Can't call function '' @ name @ '' twice.''))) as, s)"
  by (induction as) (simp_all add: call_once_wrapper_def)

text \<open>
  C9, as the code has it.  For a function that leaves \<open>__called__\<close> set (only the
  wrapper writes it), and a wrapper that was not called yet: the first call sets
  \<open>__called__\<close> and then has the outcome of the function, its result or its
  exception; every later call raises the \<open>NameError\<close> of the wrapper and does not
  run the function, whether the first call returned or raised.
\<close>

theorem call_once_first_call_runs_later_calls_raise:
  assumes "\<And>a s. called s \<Longrightarrow> called (snd (func a s))"
    and "\<not> called s"
  shows "wrapper_calls name func (a # as) s
     = (fst (func a (s\<lparr>called := True\<rparr>))
          # map (\<lambda>a. Inl (NameError (''Can't call function '' @ name @ '' twice.''))) as,
        snd (func a (s\<lparr>called := True\<rparr>)))"
proof -
  obtain r s1 where f: "func a (s\<lparr>called := True\<rparr>) = (r, s1)"
    by (cases "func a (s\<lparr>called := True\<rparr>)") auto
  have "called s1" using assms(1)[of "s\<lparr>called := True\<rparr>" a] f by simp
  then show ?thesis
    using assms(2) f by (simp add: call_once_wrapper_def wrapper_calls_after_first)
qed

text \<open>
  C9, as it is stated, fails for a function that raises \<open>NameError\<close> itself: the
  first call of the wrapper raises \<open>NameError\<close> and no call was started before.
\<close>

theorem call_once_NameError_counterexample:
  "\<not> called fresh_call_state \<and>
   fst (call_once_wrapper ''f'' undefined_name () fresh_call_state)
     = Inl (NameError ''name 'x' is not defined'')"
  by (simp add: call_once_wrapper_def undefined_name_def fresh_call_state_def)

theorem call_once_first_call_runs_later_calls_raise_witness:
  "wrapper_calls ''f'' count_calls [5, 6, 7] counting_state
     = ([Inr 5, Inl (NameError ''Can't call function f twice.''),
         Inl (NameError ''Can't call function f twice.'')],
        \<lparr> called = True, world = 1 \<rparr>)"
proof -
  have p: "called s \<Longrightarrow> called (snd (count_calls a s))" for a s
    by (simp add: count_calls_def)
  have n: "\<not> called counting_state" by (simp add: counting_state_def)
  from call_once_first_call_runs_later_calls_raise[of count_calls counting_state "''f''" 5 "[6, 7]", OF p n]
  show ?thesis by (simp add: count_calls_def counting_state_def)
qed

subsection \<open>Final classes\<close>

lemma decorators_of_classes:
  "classes (snd (decorators_of obj st)) = classes st"
  "next_ref st \<le> next_ref (snd (decorators_of obj st))"
  by (auto simp: decorators_of_def alloc_def Let_def split: option.splits prod.splits)

lemma list_extend_classes:
  "classes (list_extend l xs st) = classes st" "next_ref (list_extend l xs st) = next_ref st"
  by (simp_all add: list_extend_def)

lemma update_wrapper_classes:
  "classes (snd (update_wrapper ret obj st)) = classes st"
  "next_ref (snd (update_wrapper ret obj st)) = next_ref st"
  by (simp_all add: update_wrapper_def)

lemma update_wrapper_Inr: "update_wrapper ret obj st = (Inr r, st') \<Longrightarrow> r = ret"
  by (auto simp: update_wrapper_def split: if_splits)

lemma call_internal_result:
  assumes "call_internal d obj st = (Inr r, st')" and "\<not> only_once d"
  shows "\<exists>s2. wrapped d ((case bound_self d of None \<Rightarrow> [] | Some b \<Rightarrow> [b]) @ [obj]) st = (Inr r, s2)
           \<and> classes st' = classes s2 \<and> next_ref s2 \<le> next_ref st'"
proof -
  let ?args = "(case bound_self d of None \<Rightarrow> [] | Some b \<Rightarrow> [b]) @ [obj]"
  obtain w s2 where w: "wrapped d ?args st = (w, s2)" by (cases "wrapped d ?args st") auto
  show ?thesis
  proof (cases w)
    case (Inl e)
    then show ?thesis using assms w by (simp add: call_internal_def)
  next
    case (Inr ret)
    obtain ds s3 where d3: "decorators_of ret s2 = (ds, s3)" by (cases "decorators_of ret s2") auto
    have c3: "classes s3 = classes s2" "next_ref s2 \<le> next_ref s3"
      using decorators_of_classes[where obj=ret and st=s2] d3 by simp_all
    show ?thesis
    proof (cases ds)
      case None
      then show ?thesis using assms w Inr d3 by (simp add: call_internal_def)
    next
      case (Some decorators)
      obtain base s4 where d4: "decorators_of obj s3 = (base, s4)"
        by (cases "decorators_of obj s3") auto
      have c4: "classes s4 = classes s3" "next_ref s3 \<le> next_ref s4"
        using decorators_of_classes[where obj=obj and st=s3] d4 by simp_all
      define s5 where "s5 = (case base of None \<Rightarrow> s4
          | Some b \<Rightarrow> if items s4 b \<noteq> [] then list_extend decorators (items s4 b) s4 else s4)"
      have c5: "classes s5 = classes s4" "next_ref s5 = next_ref s4"
        by (auto simp: s5_def list_extend_classes split: option.splits)
      define s6 where "s6 = list_append decorators (self_ref d) s5"
      have c6: "classes s6 = classes s5" "next_ref s6 = next_ref s5"
        by (simp_all add: s6_def list_append_def list_extend_classes)
      have ci: "call_internal d obj st = update_wrapper ret obj s6"
        using assms(2) w Inr d3 Some d4
        by (simp add: call_internal_def s5_def s6_def)
      then have u: "update_wrapper ret obj s6 = (Inr r, st')" using assms(1) by simp
      then have "r = ret" by (rule update_wrapper_Inr)
      moreover have "classes st' = classes s6" "next_ref st' = next_ref s6"
        using update_wrapper_classes[where ret=ret and obj=obj and st=s6] u by simp_all
      ultimately show ?thesis using w Inr c3 c4 c5 c6 by auto
    qed
  qed
qed

lemma class_statement_Inr:
  assumes "class_statement name bases body st = (Inr c, st')"
  shows "c = next_ref st \<and> next_ref st' = Suc (next_ref st) \<and>
     (\<exists>m. classes st' = (classes st)(c \<mapsto> \<lparr> class_mro = c # m, class_dict = body \<rparr>))"
  using assms
  by (auto simp: class_statement_def type_new_def alloc_def Let_def split: if_splits option.splits)

lemma c3_merge_head:
  assumes "c3_merge [F # m, [F]] = Some m'"
  shows "\<exists>rest. m' = F # rest"
proof -
  have f: "filter (\<lambda>s. s \<noteq> []) [F # m, [F]] = [F # m, [F]]" by simp
  from assms obtain h where h: "c3_candidate [F # m, [F]] = Some h" and "\<exists>rest. m' = h # rest"
    by (subst (asm) c3_merge.simps) (auto simp: Let_def split: option.splits)
  moreover from h have "h = F"
    by (auto simp: c3_candidate_def split: if_splits)
  ultimately show ?thesis by simp
qed

lemma subclass_of_final_raises:
  assumes "classes s F = Some \<lparr> class_mro = F # m, class_dict = d \<rparr>"
    and "d ''__init_subclass__'' = Some (Raises (TypeError msg))"
    and "F < next_ref s"
  shows "\<exists>msg'. fst (class_statement name [F] body s) = Inl (TypeError msg')"
proof (cases "c3_merge [F # m, [F]]")
  case None
  then show ?thesis using assms(1) by (simp add: class_statement_def type_new_def mro_of_def)
next
  case (Some m')
  then obtain rest where m': "m' = F # rest" using c3_merge_head by blast
  define s2 where "s2 = (snd (alloc ((class_object name)\<lparr> type_of := TypeT \<rparr>) s))\<lparr> classes :=
      (classes (snd (alloc ((class_object name)\<lparr> type_of := TypeT \<rparr>) s)))(next_ref s \<mapsto>
         \<lparr> class_mro = next_ref s # m', class_dict = body \<rparr>) \<rparr>"
  have "own_attr s2 F ''__init_subclass__'' = Some (Raises (TypeError msg))"
    using assms by (simp add: own_attr_def s2_def alloc_def)
  then have "init_subclass s2 m' = Some (TypeError msg)" by (simp add: m')
  then show ?thesis
    using assms(1) Some by (simp add: class_statement_def type_new_def mro_of_def alloc_def s2_def)
qed

text \<open>
  A class statement whose only base is the class that \<open>@final\<close> returned raises a
  \<open>TypeError\<close>, for every class \<open>C\<close> that was decorated.
\<close>

lemma final_then_subclass_raises:
  assumes "classes st C \<noteq> None"
    and "call_internal (final self) C st = (Inr F, st1)"
  shows "\<exists>msg. fst (class_statement name [F] body st1) = Inl (TypeError msg)"
proof -
  have no: "\<not> only_once (final self)" "bound_self (final self) = None"
    "wrapped (final self) = final_function"
    by (simp_all add: final_def decorator_plain_def Decorator_init_def)
  from call_internal_result[OF assms(2) no(1)] obtain s2 where
    w: "final_function [C] st = (Inr F, s2)" and c: "classes st1 = classes s2"
    and n: "next_ref s2 \<le> next_ref st1"
    by (auto simp: no)
  let ?hook = "[''__init_subclass__'' \<mapsto>
                    Raises (TypeError (''Can't subclass final class '' @ obj_name (objects st C)))]"
  from w assms(1) have "class_statement ''Final'' [C] ?hook st = (Inr F, s2)"
    by (simp add: final_function_def)
  from class_statement_Inr[OF this] obtain m where
    F: "F = next_ref st" "next_ref s2 = Suc (next_ref st)"
    "classes s2 = (classes st)(F \<mapsto> \<lparr> class_mro = F # m, class_dict = ?hook \<rparr>)"
    by blast
  have 1: "classes st1 F = Some \<lparr> class_mro = F # m, class_dict = ?hook \<rparr>"
    using c F(3) by simp
  have 2: "?hook ''__init_subclass__'' = Some (Raises (TypeError (''Can't subclass final class ''
              @ obj_name (objects st C))))" by simp
  have 3: "F < next_ref st1" using F n by simp
  from subclass_of_final_raises[OF 1 2 3] show ?thesis .
qed

text \<open>
  C1 at a failing input.  \<open>A\<close> is decorated with \<open>@final\<close>; \<open>Mixin\<close> defines an
  \<open>__init_subclass__\<close> that does not call \<open>super()\<close>.  The statement
  \<open>class B(Mixin, A)\<close> finds the hook of \<open>Mixin\<close> first in the MRO, the hook of \<open>Final\<close>
  never runs, and the subclass \<open>B\<close> of the final class is created.
\<close>

theorem final_class_subclassed_through_mixin:
  "fst (call_internal (final 5) 3 class_store) = Inr 6 \<and>
   fst (class_statement ''B'' [4, 6] empty_body (snd (call_internal (final 5) 3 class_store)))
     = Inr 9"
  by code_simp

text \<open>
  In the same store \<open>class B(A)\<close> raises.
\<close>

lemma final_single_inheritance_example:
  "fst (class_statement ''B'' [6] empty_body (snd (call_internal (final 5) 3 class_store)))
     = Inl (TypeError ''Can't subclass final class A'')"
  by code_simp

subsection \<open>Freezing builtin values\<close>

text \<open>
  C4.  For every object \<open>v\<close> whose type is \<open>str\<close>, \<open>int\<close>, \<open>float\<close>, \<open>bool\<close>, \<open>list\<close> or
  \<open>set\<close>: \<open>freeze(v, in_place=True)\<close> raises \<open>UnfreezableObjectError\<close> and changes
  nothing; \<open>freeze(v)\<close> returns, and no object of the store is modified by it; for a
  \<open>str\<close>, \<open>int\<close>, \<open>float\<close> or \<open>bool\<close> the result is \<open>v\<close>, for a list it is a new tuple with
  the items of \<open>v\<close>, for a set a new frozenset with the items of \<open>v\<close>.
\<close>

theorem freeze_builtin:
  assumes "type_of (objects st v) \<in> {StrT, IntT, FloatT, BoolT, ListT, SetT}"
  shows "freeze freeze_instance str_of freezable v True st
           = (Inl (UnfreezableObjectError (''Can't freeze in place builtin ''
                  @ type_name_of st (type_of (objects st v)))), st)
    \<and> (\<exists>r st'. freeze freeze_instance str_of freezable v False st = (Inr r, st') \<and>
          (\<forall>x. x < next_ref st \<longrightarrow> objects st' x = objects st x) \<and>
          (type_of (objects st v) \<in> {StrT, IntT, FloatT, BoolT} \<longrightarrow> r = v \<and> st' = st) \<and>
          (type_of (objects st v) = ListT \<longrightarrow>
             r = next_ref st \<and> type_of (objects st' r) = TupleT \<and> items st' r = items st v) \<and>
          (type_of (objects st v) = SetT \<longrightarrow>
             r = next_ref st \<and> type_of (objects st' r) = FrozensetT \<and> items st' r = items st v))"
proof -
  consider "type_of (objects st v) \<in> {StrT, IntT, FloatT, BoolT}"
    | "type_of (objects st v) = ListT" | "type_of (objects st v) = SetT"
    using assms by auto
  then show ?thesis
  proof cases
    case 1
    then show ?thesis
      by (auto simp: freeze_def frozen_builtins_mapping_def construct_def)
  next
    case 2
    then show ?thesis
      by (simp add: freeze_def frozen_builtins_mapping_def construct_def alloc_def
          new_container_def items_def)
  next
    case 3
    then show ?thesis
      by (simp add: freeze_def frozen_builtins_mapping_def construct_def alloc_def
          new_container_def items_def)
  qed
qed

theorem freeze_builtin_witness:
  "freeze no_freeze_instance no_str_of 7 2 True value_store
     = (Inl (UnfreezableObjectError ''Can't freeze in place builtin list''), value_store)
   \<and> fst (freeze no_freeze_instance no_str_of 7 2 False value_store) = Inr 3
   \<and> type_of (objects (snd (freeze no_freeze_instance no_str_of 7 2 False value_store)) 3) = TupleT
   \<and> items (snd (freeze no_freeze_instance no_str_of 7 2 False value_store)) 3 = [0, 1]
   \<and> objects (snd (freeze no_freeze_instance no_str_of 7 2 False value_store)) 2 = objects value_store 2
   \<and> freeze no_freeze_instance no_str_of 7 0 False value_store = (Inr 0, value_store)"
proof -
  have t2: "type_of (objects value_store 2) \<in> {StrT, IntT, FloatT, BoolT, ListT, SetT}"
    and t0: "type_of (objects value_store 0) \<in> {StrT, IntT, FloatT, BoolT, ListT, SetT}"
    by (simp_all add: value_store_def value_objects_def new_list_def)
  have e2: "type_of (objects value_store 2) = ListT" "items value_store 2 = [0, 1]"
    "next_ref value_store = 3" "type_name_of value_store ListT = ''list''"
    and e0: "type_of (objects value_store 0) = IntT"
    by (simp_all add: value_store_def value_objects_def new_list_def items_def type_name_of_def)
  from freeze_builtin[OF t2, of no_freeze_instance no_str_of 7]
    freeze_builtin[OF t0, of no_freeze_instance no_str_of 7]
  show ?thesis
    unfolding e2 e0 by auto
qed

subsection \<open>The method resolution order\<close>


lemma c3_merge_Some:
  assumes "c3_merge seqs = Some m"
  shows "(filter (\<lambda>s. s \<noteq> []) seqs = [] \<and> m = []) \<or>
     (\<exists>h m'. filter (\<lambda>s. s \<noteq> []) seqs \<noteq> [] \<and>
        c3_candidate (filter (\<lambda>s. s \<noteq> []) seqs) = Some h \<and>
        c3_merge (map (\<lambda>s. if hd s = h then tl s else s) (filter (\<lambda>s. s \<noteq> []) seqs)) = Some m' \<and>
        m = h # m')"
  using assms
  by (subst (asm) c3_merge.simps) (auto simp: Let_def split: if_splits option.splits)

lemma c3_candidate_Some:
  assumes "c3_candidate seqs = Some h"
  shows "h \<in> hd ` set seqs" "\<forall>s \<in> set seqs. h \<notin> set (tl s)"
  using assms by (auto simp: c3_candidate_def find_Some_iff list_all_iff)

lemma c3_merge_set: "c3_merge seqs = Some m \<Longrightarrow> set m = \<Union> (set ` set seqs)"
proof (induction seqs arbitrary: m rule: c3_merge.induct)
  case (1 seqs)
  let ?seqs' = "filter (\<lambda>s. s \<noteq> []) seqs"
  have u: "\<Union> (set ` set ?seqs') = \<Union> (set ` set seqs)" by auto
  from c3_merge_Some[OF "1.prems"] show ?case
  proof
    assume "?seqs' = [] \<and> m = []"
    then have "\<forall>s \<in> set seqs. s = []" "m = []" by (auto simp: filter_empty_conv)
    then show ?thesis by auto
  next
    assume "\<exists>h m'. ?seqs' \<noteq> [] \<and> c3_candidate ?seqs' = Some h \<and>
        c3_merge (map (\<lambda>s. if hd s = h then tl s else s) ?seqs') = Some m' \<and> m = h # m'"
    then obtain h m' where ne: "?seqs' \<noteq> []" and c: "c3_candidate ?seqs' = Some h"
      and r: "c3_merge (map (\<lambda>s. if hd s = h then tl s else s) ?seqs') = Some m'"
      and m: "m = h # m'" by blast
    have ih: "set m' = \<Union> (set ` set (map (\<lambda>s. if hd s = h then tl s else s) ?seqs'))"
      using "1.IH"[OF refl ne c r] .
    from c3_candidate_Some(1)[OF c] obtain t where t: "t \<in> set ?seqs'" "hd t = h" by auto
    then have "t \<noteq> []" by auto
    then have ht: "h \<in> set t" using t(2) by (cases t) auto
    have "insert h (\<Union> (set ` set (map (\<lambda>s. if hd s = h then tl s else s) ?seqs')))
            = \<Union> (set ` set ?seqs')"
    proof (intro equalityI subsetI)
      fix x assume "x \<in> insert h (\<Union> (set ` set (map (\<lambda>s. if hd s = h then tl s else s) ?seqs')))"
      then consider "x = h" | q where "q \<in> set ?seqs'" "x \<in> set (if hd q = h then tl q else q)"
        by auto
      then show "x \<in> \<Union> (set ` set ?seqs')"
      proof cases
        case 1
        then show ?thesis using t(1) ht by auto
      next
        case 2
        have "set (tl q) \<subseteq> set q" by (cases q) auto
        then have "x \<in> set q" using 2(2) by (auto split: if_splits)
        then show ?thesis using 2(1) by blast
      qed
    next
      fix x assume "x \<in> \<Union> (set ` set ?seqs')"
      then obtain s where s: "s \<in> set ?seqs'" "x \<in> set s" by auto
      then have sne: "s \<noteq> []" by auto
      show "x \<in> insert h (\<Union> (set ` set (map (\<lambda>s. if hd s = h then tl s else s) ?seqs')))"
      proof (cases "hd s = h")
        case True
        then have "x = h \<or> x \<in> set (tl s)" using s(2) sne by (cases s) auto
        then show ?thesis using s(1) True by force
      next
        case False
        then show ?thesis using s by force
      qed
    qed
    then show ?thesis using m ih u by simp
  qed
qed



subsection \<open>Singletons\<close>





lemma type_new_Inr:
  assumes "type_new meta name bases body st = (Inr c, st')"
  shows "c = next_ref st \<and> next_ref st' = Suc (next_ref st) \<and>
     type_of (objects st' c) = (if meta = type_ref then TypeT else InstanceOf meta) \<and>
     (\<exists>m. c3_merge (map (mro_of st) (if bases = [] then [object_ref] else bases)
                     @ [if bases = [] then [object_ref] else bases]) = Some m \<and>
          distinct (if bases = [] then [object_ref] else bases) \<and>
          classes st' = (classes st)(c \<mapsto> \<lparr> class_mro = c # m, class_dict = body \<rparr>))"
  using assms
  by (auto simp: type_new_def alloc_def class_object_def Let_def split: if_splits option.splits)





lemma own_attr_upd:
  "x \<noteq> c \<Longrightarrow> own_attr (st\<lparr> classes := (classes st)(c \<mapsto> k) \<rparr>) x name = own_attr st x name"
  by (simp add: own_attr_def)

lemma own_attr_classes_eq:
  "classes s x = classes s' x \<Longrightarrow> own_attr s x name = own_attr s' x name"
  by (simp add: own_attr_def)

lemma mro_of_classes_eq: "classes s x = classes s' x \<Longrightarrow> mro_of s x = mro_of s' x"
  by (simp add: mro_of_def)

lemma effective_cong:
  "\<forall>x \<in> set xs. own_attr s x name = own_attr s' x name \<Longrightarrow>
   effective s name xs = effective s' name xs"
  by (induction xs) (auto split: option.splits attr.splits)




lemma lookup_along_None:
  "lookup_along st name cs = None \<longleftrightarrow> (\<forall>c \<in> set cs. own_attr st c name = None)"
  by (induction cs) (auto split: option.splits)

lemma lookup_along_cong:
  "\<forall>x \<in> set xs. own_attr s x name = own_attr s' x name \<Longrightarrow>
   lookup_along s name xs = lookup_along s' name xs"
  by (induction xs) (auto split: option.splits)

lemma type_new_bases:
  assumes "type_new meta name bases body st = (Inr c, st')"
  shows "(\<forall>b \<in> set bases. classes st b \<noteq> None) \<and> wrapped_obj st' = wrapped_obj st \<and>
         (\<forall>x. x \<noteq> c \<longrightarrow> objects st' x = objects st x)"
  using assms
  by (auto simp: type_new_def alloc_def Let_def list_all_iff split: if_splits option.splits)

lemma fresh_class_lookup:
  assumes wf: "well_formed st" and c: "classes st c \<noteq> None"
    and s': "classes s' = (classes st)(next_ref st \<mapsto> k)"
  shows "mro_of s' c = mro_of st c" "class_getattr s' c name = class_getattr st c name"
    "effective s' name (mro_of s' c) = effective st name (mro_of st c)"
    "in_dir s' c name = in_dir st c name"
proof -
  from wf c have lt: "c < next_ref st" and sub: "set (mro_of st c) \<subseteq> dom (classes st)"
    by (auto simp: well_formed_def)
  show m: "mro_of s' c = mro_of st c" using lt by (simp add: mro_of_def s')
  have o: "\<forall>x \<in> set (mro_of st c). own_attr s' x name = own_attr st x name"
  proof
    fix x assume "x \<in> set (mro_of st c)"
    then have "x \<in> dom (classes st)" using sub by auto
    then have "x < next_ref st" using wf by (auto simp: well_formed_def)
    then show "own_attr s' x name = own_attr st x name" by (simp add: own_attr_def s')
  qed
  show g: "class_getattr s' c name = class_getattr st c name"
    unfolding class_getattr_def m by (rule lookup_along_cong[OF o])
  show "effective s' name (mro_of s' c) = effective st name (mro_of st c)"
    unfolding m by (rule effective_cong[OF o])
  show "in_dir s' c name = in_dir st c name" by (simp add: in_dir_def g)
qed

lemma wrapper_Inr:
  assumes w: "wrapper wb of' proto st = (Inr W, st1)" and wf: "well_formed st"
  shows "W = next_ref st \<and> next_ref st1 = Suc (next_ref st) \<and> wrapped_obj st1 = wrapped_obj st \<and>
    (\<forall>x. x \<noteq> W \<longrightarrow> objects st1 x = objects st x) \<and>
    classes st wb \<noteq> None \<and> classes st proto \<noteq> None \<and> classes st of' \<noteq> None \<and>
    distinct [wb, proto, of'] \<and>
    (\<exists>m. c3_merge [mro_of st wb, mro_of st proto, mro_of st of', [wb, proto, of']] = Some m \<and>
        classes st1 = (classes st)(W \<mapsto> \<lparr> class_mro = W # m,
           class_dict = proxy_attr st of' proto (wrapper_body of' proto) \<rparr>))"
proof -
  from w obtain s1 where
    cs: "type_new type_ref ''Wrapper'' [wb, proto, of'] (wrapper_body of' proto) st = (Inr W, s1)"
    and st1: "st1 = (set_proxies W of' proto s1)\<lparr> objects := (objects (set_proxies W of' proto s1))
        (W := (objects (set_proxies W of' proto s1) W)
           \<lparr> obj_name := ''Wrapper@'' @ obj_name (objects (set_proxies W of' proto s1) of') \<rparr>) \<rparr>"
    by (auto simp: wrapper_def class_statement_def Let_def split: prod.splits sum.splits)
  from type_new_Inr[OF cs] obtain m where
    W: "W = next_ref st" and n1: "next_ref s1 = Suc (next_ref st)"
    and m: "c3_merge [mro_of st wb, mro_of st proto, mro_of st of', [wb, proto, of']] = Some m"
    and d: "distinct [wb, proto, of']"
    and c1: "classes s1 = (classes st)(W \<mapsto> \<lparr> class_mro = W # m, class_dict = wrapper_body of' proto \<rparr>)"
    by auto
  from type_new_bases[OF cs] have b: "classes st wb \<noteq> None" "classes st proto \<noteq> None"
    "classes st of' \<noteq> None" and wo: "wrapped_obj s1 = wrapped_obj st"
    and ob: "\<forall>x. x \<noteq> W \<longrightarrow> objects s1 x = objects st x"
    by auto
  have c1': "classes s1 = (classes st)(next_ref st \<mapsto> \<lparr> class_mro = W # m, class_dict = wrapper_body of' proto \<rparr>)"
    using c1 W by simp
  have p: "proxy_attr s1 of' proto = proxy_attr st of' proto"
    by (intro ext) (simp add: proxy_attr_def fresh_class_lookup[OF wf b(3) c1']
        fresh_class_lookup[OF wf b(2) c1'])
  have sp: "set_proxies W of' proto s1 = s1\<lparr> classes := (classes st)(W \<mapsto> \<lparr> class_mro = W # m,
           class_dict = proxy_attr st of' proto (wrapper_body of' proto) \<rparr>) \<rparr>"
    by (simp add: set_proxies_def c1 p)
  show ?thesis
    using W n1 m d b wo ob unfolding st1 sp by simp
qed

lemma c3_merge_bases_head:
  assumes m: "c3_merge (seqs @ [b # bs]) = Some m"
    and h: "\<forall>s \<in> set seqs. s \<noteq> [] \<longrightarrow> hd s \<in> set (b # bs)"
    and d: "distinct (b # bs)"
  shows "\<exists>m'. m = b # m'"
proof -
  let ?f = "filter (\<lambda>s. s \<noteq> []) (seqs @ [b # bs])"
  have ne: "?f \<noteq> []" by simp
  with c3_merge_Some[OF m] obtain c m' where c: "c3_candidate ?f = Some c" and mm: "m = c # m'"
    by auto
  from c3_candidate_Some[OF c] have 1: "c \<in> hd ` set ?f" and 2: "\<forall>s \<in> set ?f. c \<notin> set (tl s)"
    by auto
  from 1 h have "c \<in> set (b # bs)" by auto
  moreover from 2 have "c \<notin> set bs" by auto
  ultimately have "c = b" by simp
  then show ?thesis using mm by simp
qed

lemma classes_eq:
  assumes "classes s = classes s'"
  shows "mro_of s = mro_of s'" "own_attr s = own_attr s'" "lookup_along s = lookup_along s'"
    "class_getattr s = class_getattr s'" "effective s = effective s'" "in_dir s = in_dir s'"
    "data_attr s = data_attr s'"
proof -
  show 1: "mro_of s = mro_of s'" by (intro ext) (simp add: mro_of_def assms)
  show 2: "own_attr s = own_attr s'" by (intro ext) (simp add: own_attr_def assms)
  show 3: "lookup_along s = lookup_along s'"
    by (intro ext, rule lookup_along_cong) (simp add: 2)
  show 4: "class_getattr s = class_getattr s'" by (intro ext) (simp add: class_getattr_def 1 3)
  show "effective s = effective s'"
    by (intro ext, rule effective_cong) (simp add: 2)
  show "in_dir s = in_dir s'" by (intro ext) (simp add: in_dir_def 4)
  show "data_attr s = data_attr s'" by (intro ext) (simp add: data_attr_def 4)
qed

text \<open>
  The methods that the call \<open>W.__wrap__(x)\<close> of a wrapper class runs are those of
  \<open>_WrapperBase\<close>, its first base: their names are in \<open>__ignore__\<close>, so the class gets no
  proxy for them.
\<close>

lemma wrapper_class_methods:
  assumes wf: "well_formed st"
    and wb: "classes st wb = Some (wrapper_base_class wb)"
    and w: "wrapper wb of' proto st = (Inr W, st1)"
  shows "class_getattr st1 W ''__wrap__'' = Some (Method ''_WrapperBase.__wrap__'')"
    "class_getattr st1 W ''__new__'' = Some (Method ''_WrapperBase.__new__'')"
    "class_getattr st1 W ''__init__'' = Some (Method ''_WrapperBase.__init__'')"
    "class_getattr st1 W ''__unwrap__'' = Some (Method ''_WrapperBase.__unwrap__'')"
proof -
  let ?D = "proxy_attr st of' proto (wrapper_body of' proto)"
  from wrapper_Inr[OF w wf] obtain m where
    W: "W = next_ref st"
    and b: "classes st wb \<noteq> None" "classes st proto \<noteq> None" "classes st of' \<noteq> None"
    and d: "distinct [wb, proto, of']"
    and m: "c3_merge [mro_of st wb, mro_of st proto, mro_of st of', [wb, proto, of']] = Some m"
    and c1: "classes st1 = (classes st)(W \<mapsto> \<lparr> class_mro = W # m, class_dict = ?D \<rparr>)"
    by (elim conjE exE)
  have wfc: "c < next_ref st" "hd (mro_of st c) = c" if "classes st c \<noteq> None" for c
    using wf that by (auto simp: well_formed_def)
  have "\<forall>s \<in> set [mro_of st wb, mro_of st proto, mro_of st of']. s \<noteq> [] \<longrightarrow> hd s \<in> set (wb # [proto, of'])"
    using wfc(2)[OF b(1)] wfc(2)[OF b(2)] wfc(2)[OF b(3)] by simp
  with m d have "\<exists>m'. m = wb # m'"
    using c3_merge_bases_head[of "[mro_of st wb, mro_of st proto, mro_of st of']" wb "[proto, of']" m]
    by simp
  then obtain m' where m': "m = wb # m'" by (elim exE)
  have mW: "mro_of st1 W = W # wb # m'" by (simp add: mro_of_def c1 m')
  have oW: "own_attr st1 W n = ?D n" for n by (simp add: own_attr_def c1)
  have wbW: "wb \<noteq> W" using wfc(1)[OF b(1)] W by simp
  have owb: "own_attr st1 wb n = class_dict (wrapper_base_class wb) n" for n
    using wbW by (simp add: own_attr_def c1 wb)
  have D: "?D ''__wrap__'' = None" "?D ''__new__'' = None" "?D ''__init__'' = None"
    "?D ''__unwrap__'' = None"
    by (simp_all add: proxy_attr_def wrapper_body_def ignore_names_def)
  show "class_getattr st1 W ''__wrap__'' = Some (Method ''_WrapperBase.__wrap__'')"
    "class_getattr st1 W ''__new__'' = Some (Method ''_WrapperBase.__new__'')"
    "class_getattr st1 W ''__init__'' = Some (Method ''_WrapperBase.__init__'')"
    "class_getattr st1 W ''__unwrap__'' = Some (Method ''_WrapperBase.__unwrap__'')"
    by (simp_all add: class_getattr_def mW oW D owb wrapper_base_class_def)
qed

text \<open>
  Where wrapping then unwrapping does give the object back.  In a store whose
  classes are well formed, let \<open>W\<close> be the class that \<open>wrapper(of=of)(proto)\<close> returned,
  where \<open>proto\<close> has no \<open>__unwrap__\<close> and an \<open>__init__\<close> that returns, where \<open>of\<close> is a
  class with the metaclass \<open>type\<close> that keeps \<open>object.__new__\<close> and has no attribute
  named \<open>mro\<close>, and where neither class has an attribute \<open>_obj\<close>, nor \<open>of\<close> one named
  \<open>__wraps__\<close> or \<open>__prototype__\<close> (the loop over \<open>dir(of)\<close> would copy them over those of
  the wrapper class).  In every later store with the same classes, for every object
  \<open>x\<close> without \<open>__unwrap__\<close> whose type is \<open>of\<close> itself or another class of the MRO of
  \<open>of\<close>: \<open>W.__wrap__(x)\<close> returns, and \<open>unwrap\<close> of what it returned returns \<open>x\<close>.
\<close>

lemma unwrap_wrap_returns_object:
  assumes wf: "well_formed st"
    and wb: "classes st wb = Some (wrapper_base_class wb)"
    and w: "wrapper wb of' proto st = (Inr W, st1)"
    and later: "classes s = classes st1" "next_ref st1 \<le> next_ref s"
    and pu: "\<not> in_dir st proto ''__unwrap__''"
    and x: "x < next_ref s" "\<not> has_unwrap s x"
    and xt: "class_of s x = Some t" "t \<in> set (mro_of st of')"
    and names: "\<not> in_dir st of' ''_obj''" "\<not> in_dir st proto ''_obj''"
       "\<not> in_dir st of' ''__wraps__''" "\<not> in_dir st of' ''__prototype__''"
    and nm: "\<not> in_dir st of' ''mro''" "type_of (objects s of') = TypeT"
    and new: "class_getattr st of' ''__new__'' = Some ObjectNew"
    and init: "returns_normally (effective st ''__init__'' (mro_of st proto))"
  shows "case WrapperBase_wrap W x s of
           (Inr w, s2) \<Rightarrow> unwrap s2 w = Some (Inr x)
         | (Inl e, s2) \<Rightarrow> False"
proof -
  let ?D = "proxy_attr st of' proto (wrapper_body of' proto)"
  from wrapper_Inr[OF w wf] obtain m where
    W: "W = next_ref st" and n1: "next_ref st1 = Suc (next_ref st)"
    and wo: "wrapped_obj st1 = wrapped_obj st"
    and ob: "\<forall>y. y \<noteq> W \<longrightarrow> objects st1 y = objects st y"
    and b: "classes st wb \<noteq> None" "classes st proto \<noteq> None" "classes st of' \<noteq> None"
    and d: "distinct [wb, proto, of']"
    and m: "c3_merge [mro_of st wb, mro_of st proto, mro_of st of', [wb, proto, of']] = Some m"
    and c1: "classes st1 = (classes st)(W \<mapsto> \<lparr> class_mro = W # m, class_dict = ?D \<rparr>)"
    by (elim conjE exE)
  have c1': "classes st1 = (classes st)(next_ref st \<mapsto> \<lparr> class_mro = W # m, class_dict = ?D \<rparr>)"
    using c1 W by simp
  have obj: "classes st object_ref = Some the_object_class"
    using wf by (simp add: well_formed_def)
  have wfc: "c < next_ref st" "hd (mro_of st c) = c" "mro_of st c \<noteq> []"
    "set (mro_of st c) \<subseteq> dom (classes st)" if "classes st c \<noteq> None" for c
    using wf that by (auto simp: well_formed_def)
  have self_in: "c \<in> set (mro_of st c)" if "classes st c \<noteq> None" for c
    using wfc(2,3)[OF that] by (metis hd_in_set)
  have old: "own_attr st1 c n = own_attr st c n" if "c \<noteq> W" for c n
    using that by (simp add: own_attr_def c1)
  have mw: "mro_of st wb = [wb, object_ref]"
    by (simp add: mro_of_def wb wrapper_base_class_def)
  \<comment> \<open>the MRO of the wrapper class\<close>
  have "\<forall>s \<in> set [mro_of st wb, mro_of st proto, mro_of st of']. s \<noteq> [] \<longrightarrow> hd s \<in> set (wb # [proto, of'])"
    using wfc(2)[OF b(1)] wfc(2)[OF b(2)] wfc(2)[OF b(3)] by simp
  with m d have "\<exists>m'. m = wb # m'"
    using c3_merge_bases_head[of "[mro_of st wb, mro_of st proto, mro_of st of']" wb "[proto, of']" m]
    by simp
  then obtain m' where m': "m = wb # m'" by (elim exE)
  have mW: "mro_of st1 W = W # wb # m'" by (simp add: mro_of_def c1 m')
  have oW: "own_attr st1 W n = ?D n" for n by (simp add: own_attr_def c1)
  have wbW: "wb \<noteq> W" using wfc(1)[OF b(1)] W by simp
  have owb: "own_attr st1 wb n = class_dict (wrapper_base_class wb) n" for n
    using wbW by (simp add: own_attr_def c1 wb)
  have D_wraps: "?D ''__wraps__'' = Some (Data of')"
    using names(3) by (simp add: proxy_attr_def wrapper_body_def)
  have D_proto: "?D ''__prototype__'' = Some (Data proto)"
    using names(4) by (simp add: proxy_attr_def wrapper_body_def)
  have D_unwrap: "?D ''__unwrap__'' = None"
    by (simp add: proxy_attr_def wrapper_body_def ignore_names_def)
  have D_obj: "?D ''_obj'' = None"
    using names(1) by (simp add: proxy_attr_def wrapper_body_def)
  have g_wraps: "data_attr st1 W ''__wraps__'' = Inr of'"
    by (simp add: data_attr_def class_getattr_def mW oW D_wraps)
  have g_proto: "data_attr st1 W ''__prototype__'' = Inr proto"
    by (simp add: data_attr_def class_getattr_def mW oW D_proto)
  have g_unwrap: "class_getattr st1 W ''__unwrap__'' = Some (Method ''_WrapperBase.__unwrap__'')"
    and e_unwrap: "effective st1 ''__unwrap__'' (mro_of st1 W) = Some (Method ''_WrapperBase.__unwrap__'')"
    by (simp_all add: class_getattr_def mW oW D_unwrap owb wrapper_base_class_def)
  have g_obj: "class_getattr st1 W ''_obj'' = None"
    unfolding class_getattr_def lookup_along_None
  proof
    fix c assume c: "c \<in> set (mro_of st1 W)"
    show "own_attr st1 c ''_obj'' = None"
    proof (cases "c = W")
      case True
      then show ?thesis by (simp add: oW D_obj)
    next
      case False
      have "set m = \<Union> (set ` set [mro_of st wb, mro_of st proto, mro_of st of', [wb, proto, of']])"
        by (rule c3_merge_set[OF m])
      then have "c \<in> {wb, object_ref} \<union> set (mro_of st proto) \<union> set (mro_of st of')"
        using c False mW m' mw self_in[OF b(2)] self_in[OF b(3)] by auto
      moreover have "own_attr st wb ''_obj'' = None"
        by (simp add: own_attr_def wb wrapper_base_class_def)
      moreover have "own_attr st object_ref ''_obj'' = None"
        by (simp add: own_attr_def obj the_object_class_def)
      moreover have "\<forall>c \<in> set (mro_of st proto). own_attr st c ''_obj'' = None"
        using names(2) by (simp add: in_dir_def class_getattr_def lookup_along_None)
      moreover have "\<forall>c \<in> set (mro_of st of'). own_attr st c ''_obj'' = None"
        using names(1) by (simp add: in_dir_def class_getattr_def lookup_along_None)
      ultimately have "own_attr st c ''_obj'' = None" by auto
      then show ?thesis using old[OF False] by simp
    qed
  qed
  \<comment> \<open>the call of the class\<close>
  define w where "w = next_ref s"
  define sa where "sa = s\<lparr> objects := (objects s)(w := instance_object W), next_ref := Suc w \<rparr>"
  define s2 where "s2 = sa\<lparr> wrapped_obj := (wrapped_obj sa)(w \<mapsto> x) \<rparr>"
  have ca: "classes sa = classes st1" and c2: "classes s2 = classes st1"
    by (simp_all add: sa_def s2_def later(1))
  note qs = classes_eq[OF later(1)] and qa = classes_eq[OF ca] and q2 = classes_eq[OF c2]
  have xw: "x \<noteq> w" using x(1) by (simp add: w_def)
  have ow: "of' \<noteq> w" using wfc(1)[OF b(3)] n1 later(2) by (simp add: w_def)
  have gn: "class_getattr st1 of' ''__new__'' = Some ObjectNew"
    using fresh_class_lookup(2)[OF wf b(3) c1'] new by simp
  have new': "WrapperBase_new W s = (Inr w, sa)"
    by (simp add: WrapperBase_new_def qs g_wraps gn alloc_def sa_def w_def)
  have tw: "class_of sa w = Some W" "class_of s2 w = Some W"
    by (simp_all add: class_of_def sa_def s2_def instance_object_def)
  have isi: "isinstance sa w W"
    by (simp add: isinstance_def tw qa mW)
  have ox: "objects sa x = objects s x" "objects s2 x = objects s x"
    using xw by (simp_all add: sa_def s2_def)
  have tx: "class_of sa x = Some t" "class_of s2 x = Some t"
    using xt(1) by (simp_all add: class_of_def ox)
  have mo: "mro_of st1 of' = mro_of st of'"
    by (rule fresh_class_lookup(1)[OF wf b(3) c1'])
  have ei: "effective st1 ''__init__'' (mro_of st1 proto) = effective st ''__init__'' (mro_of st proto)"
    by (rule fresh_class_lookup(3)[OF wf b(2) c1'])
  \<comment> \<open>the list that \<open>of.mro()\<close> returns\<close>
  have ty: "classes st type_ref = Some the_type_class"
    using wf by (simp add: well_formed_def)
  have tyn: "classes st type_ref \<noteq> None" using ty by simp
  have "effective st ''mro'' (mro_of st type_ref) = None"
    by (simp add: mro_of_def ty the_type_class_def own_attr_def obj the_object_class_def)
  then have em: "effective st1 ''mro'' (mro_of st1 type_ref) = None"
    using fresh_class_lookup(3)[OF wf tyn c1'] by simp
  have gm: "class_getattr st1 of' ''mro'' = None"
    using nm(1) fresh_class_lookup(2)[OF wf b(3) c1'] by (simp add: in_dir_def)
  have oo: "objects sa of' = objects s of'" using ow by (simp add: sa_def)
  have to: "class_of sa of' = Some type_ref" by (simp add: class_of_def oo nm(2))
  obtain k where k: "classes st1 of' = Some k" "class_mro k = mro_of st of'"
    using b(3) mo wfc(1)[OF b(3)] W by (auto simp: mro_of_def c1)
  have mc: "mro_call sa of' = Inr (mro_of st of')"
    by (simp add: mro_call_def ca k to qa gm em)
  have s2': "sa\<lparr> wrapped_obj := (wrapped_obj sa)(w \<mapsto> x) \<rparr> = s2" by (simp add: s2_def)
  have init': "WrapperBase_init w x True sa = (Inr (), s2)"
    using init xt(2)
    by (simp add: WrapperBase_init_def tw tx qa q2 g_wraps g_proto g_obj mc ei s2' Let_def
        returns_normally_def split: option.splits attr.splits)
  have wrap: "WrapperBase_wrap W x s = (Inr w, s2)"
    by (simp add: WrapperBase_wrap_def new' isi init')
  \<comment> \<open>unwrapping\<close>
  have hu: "has_unwrap s2 w"
    by (simp add: has_unwrap_def tw q2 in_dir_def g_unwrap)
  have pu1: "\<not> in_dir st1 proto ''__unwrap__''"
    using pu fresh_class_lookup(4)[OF wf b(2) c1'] by simp
  have wo2: "wrapped_obj s2 w = Some x" by (simp add: s2_def)
  have go: "get_obj s2 w = Inr x"
    by (simp add: get_obj_def tw q2 g_obj wo2)
  have cu: "call_unwrap s2 w = Inr x"
    by (simp add: call_unwrap_def tw q2 e_unwrap WrapperBase_unwrap_def g_proto pu1 go)
  have nx: "\<not> has_unwrap s2 x"
    using x(2) by (simp add: has_unwrap_def tx xt(1) q2 qs)
  have "unwrap s2 w = Some (Inr x)"
    by (subst unwrap.simps, simp add: hu cu, subst unwrap.simps, simp add: nx)
  then show ?thesis by (simp add: wrap)
qed

text \<open>
  C10.  Wrapping then unwrapping does not give back an instance of a subclass of the
  wrapped class.  \<open>__wrap__\<close> passes the object with \<open>wrap_it=True\<close>, "just to wrap it,
  not to create a new object"; but \<open>_WrapperBase.__init__\<close> asks whether the exact type
  of the object is in \<open>of.mro()\<close>, which holds for \<open>of\<close> and its bases and fails for
  its subclasses.  With \<open>A\<close> the wrapped class, \<open>Proto\<close> the prototype and \<open>x\<close> the
  object 9, an instance of the subclass \<open>B\<close> of \<open>A\<close>, no \<open>__unwrap__\<close> anywhere:
  \<open>W.__wrap__(x)\<close> is the wrapper 12 of a new instance 13 of \<open>A\<close>, and \<open>unwrap\<close> of it
  returns 13, not \<open>x\<close>.
\<close>

theorem wrap_then_unwrap_subclass_instance:
  "isinstance wrapper_store 9 4 \<and>
   \<not> has_unwrap wrapper_store 9 \<and> \<not> in_dir wrapper_store 5 ''__unwrap__'' \<and>
   fst (wrapper 3 4 5 wrapper_store) = Inr 11 \<and>
   fst (WrapperBase_wrap 11 9 (snd (wrapper 3 4 5 wrapper_store))) = Inr 12 \<and>
   unwrap (snd (WrapperBase_wrap 11 9 (snd (wrapper 3 4 5 wrapper_store)))) 12 = Some (Inr 13) \<and>
   class_of (snd (WrapperBase_wrap 11 9 (snd (wrapper 3 4 5 wrapper_store)))) 13 = Some 4"
  by code_simp

theorem wrap_then_unwrap_subclass_instance_witness:
  "\<not> has_unwrap wrapper_store 9 \<and> \<not> in_dir wrapper_store 5 ''__unwrap__'' \<and>
   unwrap (snd (WrapperBase_wrap 11 9 (snd (wrapper 3 4 5 wrapper_store)))) 12 \<noteq> Some (Inr 9)"
  using wrap_then_unwrap_subclass_instance by simp

text \<open>
  An instance of a class that is not related to the wrapped class (object 10, an
  instance of \<open>U\<close>) is likewise taken for a constructor argument, and an instance of
  the wrapped class itself (object 8) comes back.
\<close>

lemma wrap_unrelated_instance_example:
  "class_of wrapper_store 10 = Some 7 \<and> \<not> isinstance wrapper_store 10 4 \<and>
   fst (WrapperBase_wrap 11 10 (snd (wrapper 3 4 5 wrapper_store))) = Inr 12 \<and>
   unwrap (snd (WrapperBase_wrap 11 10 (snd (wrapper 3 4 5 wrapper_store)))) 12 = Some (Inr 13)"
  by code_simp

lemma well_formed_wrapper_store: "well_formed wrapper_store"
  by (auto simp: well_formed_def wrapper_store_def wrapper_table_def mro_of_def object_ref_def
      wrapper_base_class_def the_object_class_def the_type_class_def type_ref_def)

lemma wrap_instance_example:
  "fst (WrapperBase_wrap 11 8 (snd (wrapper 3 4 5 wrapper_store))) = Inr 12 \<and>
   unwrap (snd (WrapperBase_wrap 11 8 (snd (wrapper 3 4 5 wrapper_store)))) 12 = Some (Inr 8)"
proof -
  let ?s = "snd (wrapper 3 4 5 wrapper_store)"
  have wf: "well_formed wrapper_store" by (rule well_formed_wrapper_store)
  have wb: "classes wrapper_store 3 = Some (wrapper_base_class 3)"
    by (simp add: wrapper_store_def wrapper_table_def)
  have "fst (wrapper 3 4 5 wrapper_store) = Inr 11" by code_simp
  then have w: "wrapper 3 4 5 wrapper_store = (Inr 11, ?s)"
    by (metis prod.collapse)
  have later: "classes ?s = classes ?s" "next_ref ?s \<le> next_ref ?s" by simp_all
  have pu: "\<not> in_dir wrapper_store 5 ''__unwrap__''" by code_simp
  have x: "8 < next_ref ?s" "\<not> has_unwrap ?s 8" by code_simp+
  have xt: "class_of ?s 8 = Some 4" "4 \<in> set (mro_of wrapper_store 4)" by code_simp+
  have names: "\<not> in_dir wrapper_store 4 ''_obj''" "\<not> in_dir wrapper_store 5 ''_obj''"
    "\<not> in_dir wrapper_store 4 ''__wraps__''" "\<not> in_dir wrapper_store 4 ''__prototype__''"
    by code_simp+
  have nm: "\<not> in_dir wrapper_store 4 ''mro''" "type_of (objects ?s 4) = TypeT" by code_simp+
  have new: "class_getattr wrapper_store 4 ''__new__'' = Some ObjectNew" by code_simp
  have init: "returns_normally (effective wrapper_store ''__init__'' (mro_of wrapper_store 5))"
    by code_simp
  have r: "fst (WrapperBase_wrap 11 8 ?s) = Inr 12" by code_simp
  from unwrap_wrap_returns_object[OF wf wb w later pu x xt names nm new init] r
  have "unwrap (snd (WrapperBase_wrap 11 8 ?s)) 12 = Some (Inr 8)"
    by (cases "WrapperBase_wrap 11 8 ?s") (auto split: sum.splits)
  with r show ?thesis by simp
qed

end
